theory Spec2Isabelle
  imports Main "HOL-Library.FSet"
begin

section \<open>Fee ledger reconstruction: \<open>complete_fee_transformation.py\<close>\<close>

text \<open>
  A shallow embedding of class \<open>CompleteFeeDataTransformer\<close>. Conventions:
  \<^item> Monetary amounts are Python floats in the source. The model takes a float as an
    exact whole number or NaN (\<open>pyfloat\<close>), so float rounding is outside the model; the
    output's \<open>f"{x:.2f}"\<close> formatting is not applied, the rows carry the floats.
  \<^item> \<open>uuid.uuid4()\<close> is modelled by a supply of fresh identifiers: the k-th call of a
    run returns the number k. That two calls never return the same value is therefore
    an assumption of the model.
  \<^item> A legacy row is a record of \<open>pd.read_csv(...).to_dict('records')\<close>: a dict from
    column names to cells. An empty cell is NaN. A field is an \<open>option\<close>, \<open>None\<close>
    standing for a column the file does not have, where \<open>row.get(f, d)\<close> returns \<open>d\<close>.
    The amount and balance columns are numeric columns (numbers and empty cells, read as
    floats); the cancellation flag and the receipt number are cells of any kind.
    The identifiers \<open>id\<close>, \<open>student_id\<close>, \<open>feereceipt_id\<close> are the strings
    \<open>str(...)\<close> returns for them, and \<open>enrol_id\<close> is a text cell.
  \<^item> Output columns that are constants or copies no property below reads (academic year,
    description, payment method, created\_at, ...) are left out of the row records.
\<close>

subsection \<open>Python values\<close>

text \<open>
  A float: a number or NaN. Arithmetic with NaN gives NaN, every comparison with NaN is
  false.
\<close>

datatype pyfloat = Finite int | NaN

instantiation pyfloat :: "{zero, plus, minus, uminus, ord}"
begin

definition zero_pyfloat :: pyfloat where
  "zero_pyfloat = Finite 0"

definition plus_pyfloat :: "pyfloat \<Rightarrow> pyfloat \<Rightarrow> pyfloat" where
  "plus_pyfloat a b =
     (case a of Finite x \<Rightarrow> (case b of Finite y \<Rightarrow> Finite (x + y) | NaN \<Rightarrow> NaN) | NaN \<Rightarrow> NaN)"

definition minus_pyfloat :: "pyfloat \<Rightarrow> pyfloat \<Rightarrow> pyfloat" where
  "minus_pyfloat a b =
     (case a of Finite x \<Rightarrow> (case b of Finite y \<Rightarrow> Finite (x - y) | NaN \<Rightarrow> NaN) | NaN \<Rightarrow> NaN)"

definition uminus_pyfloat :: "pyfloat \<Rightarrow> pyfloat" where
  "uminus_pyfloat a = (case a of Finite x \<Rightarrow> Finite (- x) | NaN \<Rightarrow> NaN)"

definition less_pyfloat :: "pyfloat \<Rightarrow> pyfloat \<Rightarrow> bool" where
  "less_pyfloat a b \<longleftrightarrow>
     (case a of Finite x \<Rightarrow> (case b of Finite y \<Rightarrow> x < y | NaN \<Rightarrow> False) | NaN \<Rightarrow> False)"

definition less_eq_pyfloat :: "pyfloat \<Rightarrow> pyfloat \<Rightarrow> bool" where
  "less_eq_pyfloat a b \<longleftrightarrow>
     (case a of Finite x \<Rightarrow> (case b of Finite y \<Rightarrow> x \<le> y | NaN \<Rightarrow> False) | NaN \<Rightarrow> False)"

instance ..

end

text \<open>
  A cell of a record: an integer, a float (NaN for an empty cell), a text or a boolean, as
  pandas infers them.
\<close>

datatype cell = IntCell int | FloatCell pyfloat | StrCell string | BoolCell bool

text \<open>Truthiness, as \<open>if x\<close>, \<open>x or y\<close> and \<open>a if x else b\<close> test it. NaN is true.\<close>

fun truthy_float :: "pyfloat \<Rightarrow> bool" where
  "truthy_float (Finite x) \<longleftrightarrow> x \<noteq> 0"
| "truthy_float NaN \<longleftrightarrow> True"

fun truthy :: "cell \<Rightarrow> bool" where
  "truthy (IntCell i) \<longleftrightarrow> i \<noteq> 0"
| "truthy (FloatCell x) \<longleftrightarrow> truthy_float x"
| "truthy (StrCell s) \<longleftrightarrow> s \<noteq> []"
| "truthy (BoolCell b) \<longleftrightarrow> b"

subsection \<open>Python string helpers\<close>

text \<open>\<open>str.isspace\<close> on the code points below 256.\<close>

definition py_isspace :: "char \<Rightarrow> bool" where
  "py_isspace c \<longleftrightarrow> c \<in> set [CHR 0x09, CHR 0x0A, CHR 0x0B, CHR 0x0C, CHR 0x0D,
     CHR 0x1C, CHR 0x1D, CHR 0x1E, CHR 0x1F, CHR 0x20, CHR 0x85, CHR 0xA0]"

text \<open>\<open>s.strip()\<close>\<close>

definition strip :: "string \<Rightarrow> string" where
  "strip s = rev (dropWhile py_isspace (rev (dropWhile py_isspace s)))"

definition digit_char :: "nat \<Rightarrow> char" where
  "digit_char d = char_of (48 + d)"

definition digit_val :: "char \<Rightarrow> nat" where
  "digit_val c = of_char c - 48"

definition is_digit :: "char \<Rightarrow> bool" where
  "is_digit c \<longleftrightarrow> 48 \<le> (of_char c :: nat) \<and> (of_char c :: nat) \<le> 57"

text \<open>\<open>str(n)\<close> for a non-negative integer.\<close>

fun str_nat :: "nat \<Rightarrow> string" where
  "str_nat n = (if n < 10 then [digit_char n] else str_nat (n div 10) @ [digit_char (n mod 10)])"

declare str_nat.simps [simp del]

text \<open>
  \<open>str(x)\<close> for a cell: an integer in decimal, a whole float with \<open>.0\<close> (as \<open>repr\<close>
  prints it below \<open>1e16\<close>), NaN as \<open>nan\<close>, a text as it is.
\<close>

definition str_int :: "int \<Rightarrow> string" where
  "str_int i = (if i < 0 then CHR ''-'' # str_nat (nat (- i)) else str_nat (nat i))"

fun py_str :: "cell \<Rightarrow> string" where
  "py_str (IntCell i) = str_int i"
| "py_str (FloatCell (Finite x)) = str_int x @ ''.0''"
| "py_str (FloatCell NaN) = ''nan''"
| "py_str (StrCell s) = s"
| "py_str (BoolCell b) = (if b then ''True'' else ''False'')"

text \<open>The format \<open>f"MIG-{n:06d}"\<close>: decimal digits, padded with zeros on the left to width 6.\<close>

definition zero_pad :: "nat \<Rightarrow> string \<Rightarrow> string" where
  "zero_pad w s = replicate (w - length s) (CHR ''0'') @ s"

definition mig_number :: "nat \<Rightarrow> string" where
  "mig_number n = ''MIG-'' @ zero_pad 6 (str_nat n)"

text \<open>Reading a decimal numeral back; used to show that the format is injective.\<close>

definition nat_of_digits :: "string \<Rightarrow> nat" where
  "nat_of_digits s = foldl (\<lambda>a c. 10 * a + digit_val c) 0 s"

lemma digit_val_digit_char: "d < 10 \<Longrightarrow> digit_val (digit_char d) = d"
  by (simp add: digit_val_def digit_char_def)

lemma nat_of_digits_snoc: "nat_of_digits (s @ [c]) = 10 * nat_of_digits s + digit_val c"
  by (simp add: nat_of_digits_def)

lemma nat_of_digits_str_nat: "nat_of_digits (str_nat n) = n"
proof (induction n rule: str_nat.induct)
  case (1 n)
  show ?case
  proof (cases "n < 10")
    case True
    then show ?thesis
      by (simp add: str_nat.simps [of n] nat_of_digits_def digit_val_digit_char)
  next
    case False
    then have "nat_of_digits (str_nat n) = 10 * (n div 10) + n mod 10"
      using 1 by (simp add: str_nat.simps [of n] nat_of_digits_snoc digit_val_digit_char)
    then show ?thesis by simp
  qed
qed

lemma nat_of_digits_zeros: "nat_of_digits (replicate k (CHR ''0'') @ s) = nat_of_digits s"
proof -
  have "foldl (\<lambda>a c. 10 * a + digit_val c) 0 (replicate k (CHR ''0'')) = 0"
    by (induction k) (simp_all add: digit_val_def)
  then show ?thesis by (simp add: nat_of_digits_def)
qed

lemma nat_of_digits_mig: "nat_of_digits (drop 4 (mig_number n)) = n"
  by (simp add: mig_number_def zero_pad_def nat_of_digits_zeros nat_of_digits_str_nat)

lemma inj_mig_number: "inj mig_number"
  by (rule inj_on_inverseI [where g = "\<lambda>s. nat_of_digits (drop 4 s)"])
    (simp add: nat_of_digits_mig)

lemma mig_number_eq_iff: "mig_number m = mig_number n \<longleftrightarrow> m = n"
  using inj_mig_number by (auto dest: injD)

subsection \<open>Receipt numbering\<close>

text \<open>
  The two members \<open>used_receipt_numbers\<close> (a set) and \<open>receipt_counter\<close> are passed
  and returned. The \<open>while True\<close> loop of \<open>generate_unique_receipt_number\<close>:
\<close>

lemma finite_mig_indices: "finite {k. mig_number k |\<in>| used}"
proof -
  have "{k. mig_number k |\<in>| used} = mig_number -` fset used" by auto
  then show ?thesis by (simp add: finite_vimageI inj_mig_number)
qed

function mig_loop :: "string fset \<Rightarrow> nat \<Rightarrow> string \<times> string fset \<times> nat" where
  "mig_loop used receipt_counter =
     (let new_receipt_no = mig_number receipt_counter in
      if new_receipt_no |\<notin>| used
      then (new_receipt_no, finsert new_receipt_no used, receipt_counter + 1)
      else mig_loop used (receipt_counter + 1))"
  by pat_completeness auto

termination
proof (relation "measure (\<lambda>(used, c). card {k. c \<le> k \<and> mig_number k |\<in>| used})")
  show "wf (measure (\<lambda>(used, c). card {k. c \<le> k \<and> mig_number k |\<in>| used}))" by simp
next
  fix used :: "string fset" and receipt_counter :: nat and x :: string
  assume x: "x = mig_number receipt_counter" and in_used: "\<not> x |\<notin>| used"
  have fin: "finite {k. receipt_counter \<le> k \<and> mig_number k |\<in>| used}"
    by (rule finite_subset [OF _ finite_mig_indices [of used]]) auto
  have "receipt_counter \<in> {k. receipt_counter \<le> k \<and> mig_number k |\<in>| used}"
    using x in_used by simp
  moreover have "receipt_counter \<notin> {k. receipt_counter + 1 \<le> k \<and> mig_number k |\<in>| used}"
    by simp
  moreover have "{k. receipt_counter + 1 \<le> k \<and> mig_number k |\<in>| used}
        \<subseteq> {k. receipt_counter \<le> k \<and> mig_number k |\<in>| used}"
    by auto
  ultimately have "{k. receipt_counter + 1 \<le> k \<and> mig_number k |\<in>| used}
        \<subset> {k. receipt_counter \<le> k \<and> mig_number k |\<in>| used}"
    by blast
  then have "card {k. receipt_counter + 1 \<le> k \<and> mig_number k |\<in>| used}
        < card {k. receipt_counter \<le> k \<and> mig_number k |\<in>| used}"
    by (rule psubset_card_mono [OF fin])
  then show "((used, receipt_counter + 1), (used, receipt_counter))
        \<in> measure (\<lambda>(used, c). card {k. c \<le> k \<and> mig_number k |\<in>| used})"
    by simp
qed

declare mig_loop.simps [simp del]

text \<open>
  The argument \<open>legacy_receipt_no\<close> is a Python value: \<open>None\<close> or a cell.
\<close>

definition generate_unique_receipt_number ::
  "cell option \<Rightarrow> string fset \<Rightarrow> nat \<Rightarrow> string \<times> string fset \<times> nat" where
  "generate_unique_receipt_number legacy_receipt_no used receipt_counter =
     (case legacy_receipt_no of
        None \<Rightarrow> mig_loop used receipt_counter
      | Some v \<Rightarrow>
          (let clean_receipt_no = strip (py_str v) in
           if clean_receipt_no \<noteq> [] \<and> clean_receipt_no \<noteq> ''0'' \<and> clean_receipt_no |\<notin>| used
           then (clean_receipt_no, finsert clean_receipt_no used, receipt_counter)
           else mig_loop used receipt_counter))"

lemma mig_loop_result:
  "mig_loop used c = (no, used', c') \<Longrightarrow>
     no |\<notin>| used \<and> used' = finsert no used \<and> c < c' \<and> no = mig_number (c' - 1)
     \<and> (\<forall>k. c \<le> k \<and> k < c' - 1 \<longrightarrow> mig_number k |\<in>| used)"
proof (induction used c rule: mig_loop.induct)
  case (1 used c)
  show ?case
  proof (cases "mig_number c |\<notin>| used")
    case True
    with "1.prems" show ?thesis by (auto simp: mig_loop.simps [of used c] Let_def)
  next
    case False
    then have rec: "mig_loop used (c + 1) = (no, used', c')"
      using "1.prems" by (simp add: mig_loop.simps [of used c] Let_def)
    from "1.IH" [OF refl False rec]
    have ih: "no |\<notin>| used" "used' = finsert no used" "c + 1 < c'" "no = mig_number (c' - 1)"
      "\<forall>k. c + 1 \<le> k \<and> k < c' - 1 \<longrightarrow> mig_number k |\<in>| used"
      by auto
    have "\<forall>k. c \<le> k \<and> k < c' - 1 \<longrightarrow> mig_number k |\<in>| used"
    proof (intro allI impI)
      fix k assume k: "c \<le> k \<and> k < c' - 1"
      show "mig_number k |\<in>| used"
      proof (cases "k = c")
        case True
        with False show ?thesis by simp
      next
        case False
        with k ih(5) show ?thesis by auto
      qed
    qed
    with ih show ?thesis by auto
  qed
qed

subsection \<open>Data model\<close>

text \<open>
  The four legacy amount fields, in the order of the source's dict literals and of the list
  \<open>['reg_fee', 'sec_fee', 'tut_fee', 'other_fee']\<close>.
\<close>

datatype component = reg_fee | sec_fee | tut_fee | other_fee

definition fee_fields :: "component list" where
  "fee_fields = [reg_fee, sec_fee, tut_fee, other_fee]"

text \<open>
  A row of the legacy receipts file. \<open>r_fee_date\<close> is the timestamp that
  \<open>safe_parse_date\<close> returns for the row (date parsing itself is not modelled).
\<close>

record legacy_receipt =
  r_id :: string
  r_student_id :: string
  r_enrol_id :: string
  r_fee_date :: int
  r_reg_fee :: "pyfloat option"
  r_sec_fee :: "pyfloat option"
  r_tut_fee :: "pyfloat option"
  r_other_fee :: "pyfloat option"
  r_is_cancelled :: "cell option"
  r_receipt_no :: "cell option"

text \<open>A row of the legacy balance file: the balances after the receipt was applied.\<close>

record balance_record =
  b_feereceipt_id :: string
  b_reg_balance :: "pyfloat option"
  b_sec_balance :: "pyfloat option"
  b_tut_balance :: "pyfloat option"
  b_other_balance :: "pyfloat option"

text \<open>
  \<open>float(v or 0)\<close> for a value \<open>v\<close> read with \<open>.get(key, 0)\<close> from a numeric column:
  the default \<open>0\<close> and a zero cell are false, so \<open>v or 0\<close> is \<open>0\<close>; any other cell is
  true, NaN included, and is returned as it is.
\<close>

definition float_or_0 :: "pyfloat option \<Rightarrow> pyfloat" where
  "float_or_0 v = (case v of None \<Rightarrow> 0 | Some x \<Rightarrow> if truthy_float x then x else 0)"

text \<open>\<open>float(receipt.get(field, 0) or 0)\<close>\<close>

fun fee_amount :: "legacy_receipt \<Rightarrow> component \<Rightarrow> pyfloat" where
  "fee_amount receipt reg_fee = float_or_0 (r_reg_fee receipt)"
| "fee_amount receipt sec_fee = float_or_0 (r_sec_fee receipt)"
| "fee_amount receipt tut_fee = float_or_0 (r_tut_fee receipt)"
| "fee_amount receipt other_fee = float_or_0 (r_other_fee receipt)"

text \<open>
  \<open>float(balance_record.get(balance_field, 0) or 0)\<close>, where \<open>balance_record\<close> is the
  result of \<open>find_balance_record\<close>: a row, or the empty dict (\<open>None\<close> here).
\<close>

fun balance_amount :: "balance_record option \<Rightarrow> component \<Rightarrow> pyfloat" where
  "balance_amount None field = 0"
| "balance_amount (Some b) reg_fee = float_or_0 (b_reg_balance b)"
| "balance_amount (Some b) sec_fee = float_or_0 (b_sec_balance b)"
| "balance_amount (Some b) tut_fee = float_or_0 (b_tut_balance b)"
| "balance_amount (Some b) other_fee = float_or_0 (b_other_balance b)"

text \<open>
  The values of \<open>enrollment_lookup\<close> (the members \<open>course_id\<close> and \<open>session_id\<close> are
  never read). Python dicts keep insertion order, and \<open>find_enrollment_id\<close> iterates
  over one, so the lookups are association lists with distinct keys.
\<close>

record enrollment_info =
  e_enrollment_id :: string
  e_student_id :: string

type_synonym enrollment_lookup = "(string \<times> enrollment_info) list"
type_synonym student_lookup = "(string \<times> string) list"

text \<open>\<open>d[k] = v\<close> on an insertion-ordered dict.\<close>

fun dict_set :: "'k \<Rightarrow> 'v \<Rightarrow> ('k \<times> 'v) list \<Rightarrow> ('k \<times> 'v) list" where
  "dict_set k v [] = [(k, v)]"
| "dict_set k v ((k', v') # kvs) =
     (if k' = k then (k, v) # kvs else (k', v') # dict_set k v kvs)"

text \<open>\<open>fee_component_mappings[field]['id']\<close>, as set by \<open>create_fee_components\<close>.\<close>

fun fee_component_id :: "component \<Rightarrow> string" where
  "fee_component_id reg_fee = ''6dd45f0c-5e4d-4024-8a50-494761a01c33''"
| "fee_component_id sec_fee = ''1c2c736d-2d77-4956-8b5b-2ad385d032e0''"
| "fee_component_id tut_fee = ''dd319c9-03de-4595-88a5-a2c3807f99bd''"
| "fee_component_id other_fee = ''50456145-6cad-4b8c-a05c-22dd74e4a40a''"

datatype event_type = CHARGE_CREATED | PAYMENT_RECEIVED | PAYMENT_CANCELLED

datatype receipt_status = ACTIVE | CANCELLED

text \<open>The dicts that \<open>reconstruct_student_fee_history\<close> returns.\<close>

record fee_event =
  fe_receipt :: legacy_receipt
  fe_component :: component
  fe_event_type :: event_type
  fe_amount :: pyfloat
  fe_running_balance :: pyfloat
  fe_is_initial_charge :: bool

text \<open>
  Rows of the four output tables. \<open>le_receipt_id = None\<close> is the empty string of the
  source; \<open>le_event_date\<close> carries the receipt's \<open>r_fee_date\<close>.
\<close>

record ledger_event =
  le_id :: nat
  le_event_type :: event_type
  le_event_date :: int
  le_enrollment_id :: string
  le_fee_component_id :: string
  le_amount :: pyfloat
  le_running_balance :: pyfloat
  le_receipt_id :: "nat option"
  le_legacy_receipt_id :: string

record receipt_row =
  rr_id :: nat
  rr_receipt_number :: string
  rr_enrollment_id :: string
  rr_total_amount :: pyfloat
  rr_paid_amount :: pyfloat
  rr_balance_amount :: pyfloat
  rr_legacy_reg_fee :: pyfloat
  rr_legacy_sec_fee :: pyfloat
  rr_legacy_tut_fee :: pyfloat
  rr_legacy_other_fee :: pyfloat
  rr_status :: receipt_status
  rr_legacy_receipt_id :: string

record allocation =
  al_id :: nat
  al_receipt_id :: nat
  al_ledger_event_id :: nat
  al_fee_component_id :: string
  al_allocated_amount :: pyfloat
  al_enrollment_id :: string
  al_legacy_record_id :: string

record balance_row =
  bl_id :: nat
  bl_receipt_id :: nat
  bl_fee_component_id :: string
  bl_charge_amount :: pyfloat
  bl_paid_amount :: pyfloat
  bl_balance_amount :: pyfloat
  bl_enrollment_id :: string
  bl_legacy_record_id :: string

text \<open>The members of the transformer that the transformation reads and writes.\<close>

record transformer =
  enrollment_lookup :: enrollment_lookup
  student_lookup :: student_lookup
  legacy_receipts :: "legacy_receipt list"
  legacy_balance_records :: "balance_record list"
  used_receipt_numbers :: "string fset"
  receipt_counter :: nat
  transformed_receipts :: "receipt_row list"
  transformed_events :: "ledger_event list"
  transformed_allocations :: "allocation list"
  transformed_balance_records :: "balance_row list"
  uuid_counter :: nat

subsection \<open>Enrollment resolver\<close>

text \<open>
  \<open>re.search(r'/(\d+)/\d{4}$', enrol_id)\<close> and \<open>match.group(1)\<close>. A match ends at the
  end of the string, or before a final newline (\<open>$\<close>); the last four characters
  there are digits, before them is a slash, before it a non-empty run of digits, and
  before the run another slash. So there is at most one match, read here from the right.
\<close>

definition extract_student_id :: "string \<Rightarrow> string option" where
  "extract_student_id enrol_id =
     (let s = rev enrol_id;
          s = (case s of c # cs \<Rightarrow> if c = CHR 0x0A then cs else s | [] \<Rightarrow> s);
          year = take 4 s;
          rest = drop 4 s
      in if length year = 4 \<and> list_all is_digit year
         then (case rest of
                 c # cs \<Rightarrow>
                   (let run = takeWhile is_digit cs; before = dropWhile is_digit cs
                    in if c = CHR ''/'' \<and> run \<noteq> [] \<and> (case before of b # _ \<Rightarrow> b = CHR ''/'' | [] \<Rightarrow> False)
                       then Some (rev run) else None)
               | [] \<Rightarrow> None)
         else None)"

text \<open>
  The loop \<open>for enrol_code, enrol_data in self.enrollment_lookup.items()\<close> that returns
  the enrollment of the first entry with the given student.
\<close>

definition enrollment_of_student :: "enrollment_lookup \<Rightarrow> string \<Rightarrow> string option" where
  "enrollment_of_student el mapped_student_id =
     map_option (\<lambda>(enrol_code, enrol_data). e_enrollment_id enrol_data)
       (find (\<lambda>(enrol_code, enrol_data). e_student_id enrol_data = mapped_student_id) el)"

definition find_enrollment_id ::
  "enrollment_lookup \<Rightarrow> student_lookup \<Rightarrow> legacy_receipt \<Rightarrow> string option" where
  "find_enrollment_id el sl legacy_receipt =
     (let enrol_id = r_enrol_id legacy_receipt in
      case (if enrol_id \<noteq> [] then map_of el enrol_id else None) of
        Some enrol_data \<Rightarrow> Some (e_enrollment_id enrol_data)
      | None \<Rightarrow>
          (case Option.bind (map_of sl (r_student_id legacy_receipt)) (enrollment_of_student el) of
             Some e \<Rightarrow> Some e
           | None \<Rightarrow>
               (if enrol_id \<noteq> []
                then Option.bind (extract_student_id enrol_id)
                       (\<lambda>extracted_student_id.
                          Option.bind (map_of sl extracted_student_id) (enrollment_of_student el))
                else None)))"

text \<open>
  \<open>enrollment_id = self.find_enrollment_id(receipt)\<close> followed by
  \<open>if not enrollment_id: continue\<close>: \<open>None\<close> and the empty string are both skipped.
\<close>

definition resolve :: "transformer \<Rightarrow> legacy_receipt \<Rightarrow> string option" where
  "resolve self receipt =
     (case find_enrollment_id (enrollment_lookup self) (student_lookup self) receipt of
        None \<Rightarrow> None
      | Some enrollment_id \<Rightarrow> if enrollment_id = [] then None else Some enrollment_id)"

definition calculate_total_amount :: "legacy_receipt \<Rightarrow> pyfloat" where
  "calculate_total_amount receipt =
     foldl (+) 0 [float_or_0 (r_reg_fee receipt), float_or_0 (r_sec_fee receipt),
                  float_or_0 (r_tut_fee receipt), float_or_0 (r_other_fee receipt)]"

definition find_balance_record :: "balance_record list \<Rightarrow> string \<Rightarrow> balance_record option" where
  "find_balance_record balance_records receipt_id =
     find (\<lambda>balance_record. b_feereceipt_id balance_record = receipt_id) balance_records"

subsection \<open>Ledger reconstructor\<close>

text \<open>
  The body of the loop \<open>for receipt in student_receipts\<close> of
  \<open>reconstruct_student_fee_history\<close>: the charge events, created only while
  \<open>fee_events\<close> is still empty, and the payment events of one receipt.
\<close>

definition charge_events :: "legacy_receipt \<Rightarrow> balance_record option \<Rightarrow> fee_event list" where
  "charge_events receipt balance_record =
     concat (map (\<lambda>component.
        let payment_amount = fee_amount receipt component in
        if payment_amount > 0
        then (let balance_before = balance_amount balance_record component + payment_amount in
              if balance_before > 0
              then [\<lparr>fe_receipt = receipt, fe_component = component,
                      fe_event_type = CHARGE_CREATED, fe_amount = balance_before,
                      fe_running_balance = balance_before, fe_is_initial_charge = True\<rparr>]
              else [])
        else []) fee_fields)"

definition payment_events :: "legacy_receipt \<Rightarrow> balance_record option \<Rightarrow> fee_event list" where
  "payment_events receipt balance_record =
     concat (map (\<lambda>component.
        let payment_amount = fee_amount receipt component in
        if payment_amount > 0
        then [\<lparr>fe_receipt = receipt, fe_component = component,
                fe_event_type = PAYMENT_RECEIVED, fe_amount = - payment_amount,
                fe_running_balance = balance_amount balance_record component,
                fe_is_initial_charge = False\<rparr>]
        else []) fee_fields)"

definition history_step :: "balance_record list \<Rightarrow> fee_event list \<Rightarrow> legacy_receipt \<Rightarrow> fee_event list" where
  "history_step balance_records fee_events receipt =
     (let balance_record = find_balance_record balance_records (r_id receipt);
          fee_events = (if fee_events = [] then fee_events @ charge_events receipt balance_record
                        else fee_events)
      in fee_events @ payment_events receipt balance_record)"

text \<open>
  The first part of \<open>reconstruct_student_fee_history\<close>: the receipts of the student that
  resolve to the enrollment, sorted by date (\<open>list.sort\<close> is stable, as \<open>sort_key\<close> is).
\<close>

definition student_receipts :: "transformer \<Rightarrow> string \<Rightarrow> string \<Rightarrow> legacy_receipt list" where
  "student_receipts self student_id enrollment_id =
     sort_key r_fee_date
       (filter (\<lambda>receipt. r_student_id receipt = student_id \<and>
                  find_enrollment_id (enrollment_lookup self) (student_lookup self) receipt
                    = Some enrollment_id)
          (legacy_receipts self))"

definition reconstruct_student_fee_history :: "transformer \<Rightarrow> string \<Rightarrow> string \<Rightarrow> fee_event list" where
  "reconstruct_student_fee_history self student_id enrollment_id =
     foldl (history_step (legacy_balance_records self)) []
       (student_receipts self student_id enrollment_id)"

subsection \<open>Receipt, allocation and balance emitter\<close>

text \<open>
  \<open>transform_all_receipts\<close>, first loop: the dict \<open>enrollment_receipts\<close> from enrollment
  identifier to the list of its receipts.
\<close>

fun group_append :: "'k \<Rightarrow> 'v \<Rightarrow> ('k \<times> 'v list) list \<Rightarrow> ('k \<times> 'v list) list" where
  "group_append k v [] = [(k, [v])]"
| "group_append k v ((k', vs) # g) =
     (if k' = k then (k', vs @ [v]) # g else (k', vs) # group_append k v g)"

definition enrollment_receipts :: "transformer \<Rightarrow> (string \<times> legacy_receipt list) list" where
  "enrollment_receipts self =
     foldl (\<lambda>groups receipt.
        case resolve self receipt of
          None \<Rightarrow> groups
        | Some enrollment_id \<Rightarrow> group_append enrollment_id receipt groups)
       [] (legacy_receipts self)"

text \<open>
  Second loop: one ledger event per history event. The two \<open>uuid4()\<close> calls are the event's
  own identifier and, for a payment, a receipt identifier of its own.
\<close>

definition history_event_record :: "string \<Rightarrow> nat \<Rightarrow> fee_event \<Rightarrow> ledger_event" where
  "history_event_record enrollment_id uuid event =
     \<lparr>le_id = uuid,
      le_event_type = fe_event_type event,
      le_event_date = r_fee_date (fe_receipt event),
      le_enrollment_id = enrollment_id,
      le_fee_component_id = fee_component_id (fe_component event),
      le_amount = fe_amount event,
      le_running_balance = fe_running_balance event,
      le_receipt_id = (if \<not> fe_is_initial_charge event then Some (uuid + 1) else None),
      le_legacy_receipt_id = r_id (fe_receipt event)\<rparr>"

definition emit_history_event :: "string \<Rightarrow> transformer \<Rightarrow> fee_event \<Rightarrow> transformer" where
  "emit_history_event enrollment_id self event =
     self\<lparr>transformed_events :=
            transformed_events self @ [history_event_record enrollment_id (uuid_counter self) event],
          uuid_counter := uuid_counter self + (if \<not> fe_is_initial_charge event then 2 else 1)\<rparr>"

text \<open>
  A group is never empty, so \<open>receipts[0]\<close> exists; the \<open>processed_enrollments\<close> test
  never fires, the keys of a dict being distinct.
\<close>

definition process_enrollment :: "transformer \<Rightarrow> string \<times> legacy_receipt list \<Rightarrow> transformer" where
  "process_enrollment self entry =
     (case entry of
        (enrollment_id, []) \<Rightarrow> self
      | (enrollment_id, receipt0 # _) \<Rightarrow>
          (let student_id = r_student_id receipt0;
               fee_events = reconstruct_student_fee_history self student_id enrollment_id
           in foldl (emit_history_event enrollment_id) self fee_events))"

text \<open>
  \<open>is_cancelled = receipt.get('is_cancelled', False)\<close>, as the conditional expressions
  \<open>... if is_cancelled else ...\<close> test it, and \<open>receipt.get('receipt_no', '')\<close>.
\<close>

definition is_cancelled :: "legacy_receipt \<Rightarrow> bool" where
  "is_cancelled receipt \<longleftrightarrow> (case r_is_cancelled receipt of None \<Rightarrow> False | Some v \<Rightarrow> truthy v)"

definition receipt_no :: "legacy_receipt \<Rightarrow> cell" where
  "receipt_no receipt = (case r_receipt_no receipt of None \<Rightarrow> StrCell [] | Some v \<Rightarrow> v)"

text \<open>
  Third loop, the per-component part: a ledger event and an allocation for each field with a
  positive amount. The loop state is the identifier supply, \<open>running_balance\<close> and the rows
  appended so far.
\<close>

definition component_step ::
  "legacy_receipt \<Rightarrow> string \<Rightarrow> nat \<Rightarrow> nat \<times> pyfloat \<times> ledger_event list \<times> allocation list
     \<Rightarrow> component \<Rightarrow> nat \<times> pyfloat \<times> ledger_event list \<times> allocation list" where
  "component_step receipt enrollment_id receipt_id state field =
     (case state of (uuid, running_balance, events, allocations) \<Rightarrow>
        let amount = fee_amount receipt field in
        if amount > 0
        then (let event_type = (if is_cancelled receipt then PAYMENT_CANCELLED
                                else PAYMENT_RECEIVED);
                  event_id = uuid;
                  running_balance = running_balance - amount;
                  event_record =
                    \<lparr>le_id = event_id,
                     le_event_type = event_type,
                     le_event_date = r_fee_date receipt,
                     le_enrollment_id = enrollment_id,
                     le_fee_component_id = fee_component_id field,
                     le_amount = amount,
                     le_running_balance = running_balance,
                     le_receipt_id = Some receipt_id,
                     le_legacy_receipt_id = r_id receipt\<rparr>;
                  allocation_record =
                    \<lparr>al_id = uuid + 1,
                     al_receipt_id = receipt_id,
                     al_ledger_event_id = event_id,
                     al_fee_component_id = fee_component_id field,
                     al_allocated_amount = amount,
                     al_enrollment_id = enrollment_id,
                     al_legacy_record_id = r_id receipt\<rparr>
              in (uuid + 2, running_balance, events @ [event_record],
                  allocations @ [allocation_record]))
        else state)"

text \<open>The balance rows of one receipt.\<close>

definition balance_step ::
  "legacy_receipt \<Rightarrow> balance_record option \<Rightarrow> string \<Rightarrow> nat \<Rightarrow> nat \<times> balance_row list
     \<Rightarrow> component \<Rightarrow> nat \<times> balance_row list" where
  "balance_step receipt balance_record_data enrollment_id receipt_id state field =
     (case state of (uuid, rows) \<Rightarrow>
        let amount_paid = fee_amount receipt field;
            balance_after = balance_amount balance_record_data field;
            charge_amount = balance_after + amount_paid
        in if charge_amount > 0 \<or> amount_paid > 0
           then (uuid + 1,
                 rows @ [\<lparr>bl_id = uuid,
                          bl_receipt_id = receipt_id,
                          bl_fee_component_id = fee_component_id field,
                          bl_charge_amount = charge_amount,
                          bl_paid_amount = amount_paid,
                          bl_balance_amount = balance_after,
                          bl_enrollment_id = enrollment_id,
                          bl_legacy_record_id = r_id receipt\<rparr>])
           else state)"

text \<open>The body of the third loop, \<open>for receipt in self.legacy_receipts\<close>.\<close>

definition process_receipt :: "transformer \<Rightarrow> legacy_receipt \<Rightarrow> transformer" where
  "process_receipt self receipt =
     (case resolve self receipt of
        None \<Rightarrow> self
      | Some enrollment_id \<Rightarrow>
          (let total_amount = calculate_total_amount receipt;
               receipt_status = (if is_cancelled receipt then CANCELLED else ACTIVE);
               receipt_id = uuid_counter self;
               (unique_receipt_number, used, counter) =
                  generate_unique_receipt_number (Some (receipt_no receipt))
                    (used_receipt_numbers self) (receipt_counter self);
               receipt_record =
                 \<lparr>rr_id = receipt_id,
                  rr_receipt_number = unique_receipt_number,
                  rr_enrollment_id = enrollment_id,
                  rr_total_amount = total_amount,
                  rr_paid_amount = total_amount,
                  rr_balance_amount = 0,
                  rr_legacy_reg_fee = float_or_0 (r_reg_fee receipt),
                  rr_legacy_sec_fee = float_or_0 (r_sec_fee receipt),
                  rr_legacy_tut_fee = float_or_0 (r_tut_fee receipt),
                  rr_legacy_other_fee = float_or_0 (r_other_fee receipt),
                  rr_status = receipt_status,
                  rr_legacy_receipt_id = r_id receipt\<rparr>;
               (uuid, running_balance, events, allocations) =
                  foldl (component_step receipt enrollment_id receipt_id)
                    (receipt_id + 1, 0, [], []) fee_fields;
               balance_record_data =
                  find_balance_record (legacy_balance_records self) (r_id receipt);
               (uuid, balance_rows) =
                  foldl (balance_step receipt balance_record_data enrollment_id receipt_id)
                    (uuid, []) fee_fields
           in self\<lparr>used_receipt_numbers := used,
                   receipt_counter := counter,
                   transformed_receipts := transformed_receipts self @ [receipt_record],
                   transformed_events := transformed_events self @ events,
                   transformed_allocations := transformed_allocations self @ allocations,
                   transformed_balance_records := transformed_balance_records self @ balance_rows,
                   uuid_counter := uuid\<rparr>))"

datatype py_error = FileNotFoundError | ZeroDivisionError | OSError

text \<open>
  The three loops of \<open>transform_all_receipts\<close>; \<open>emit_rows\<close> is the state they leave. The
  summary printed afterwards divides by \<open>len(self.legacy_receipts)\<close>, which raises for an
  empty receipts table.
\<close>

definition emit_history :: "transformer \<Rightarrow> transformer" where
  "emit_history self = foldl process_enrollment self (enrollment_receipts self)"

definition emit_rows :: "transformer \<Rightarrow> transformer" where
  "emit_rows self = foldl process_receipt (emit_history self) (legacy_receipts self)"

definition transform_all_receipts :: "transformer \<Rightarrow> py_error + transformer" where
  "transform_all_receipts self =
     (let self = emit_rows self in
      if legacy_receipts self = [] then Inl ZeroDivisionError else Inr self)"

subsection \<open>The run\<close>

text \<open>
  \<open>__init__\<close>: empty containers, the receipt counter at 1. (It also creates the output
  directory; no file is written there.)
\<close>

definition new_transformer :: transformer where
  "new_transformer =
     \<lparr>enrollment_lookup = [], student_lookup = [], legacy_receipts = [],
      legacy_balance_records = [], used_receipt_numbers = {||}, receipt_counter = 1,
      transformed_receipts = [], transformed_events = [], transformed_allocations = [],
      transformed_balance_records = [], uuid_counter = 0\<rparr>"

text \<open>
  The input files; \<open>None\<close> is a file that does not exist. A row of the enrollment table is
  \<open>(enrollment_code, id, student_id)\<close>, a row of the student table is
  \<open>(legacy_student_id, id)\<close> with \<open>None\<close> for a missing (NaN) legacy identifier. The file
  of current balances is loaded by the source and never read again; it is left out.
\<close>

record input_files =
  enrollment_file :: "(string \<times> string \<times> string) list option"
  student_file :: "(string option \<times> string) list option"
  legacy_receipts_file :: "legacy_receipt list option"
  legacy_balance_file :: "balance_record list option"

definition load_mappings :: "input_files \<Rightarrow> transformer \<Rightarrow> transformer" where
  "load_mappings inp self =
     (let self = (case enrollment_file inp of
                    None \<Rightarrow> self
                  | Some enrollment_df \<Rightarrow>
                      self\<lparr>enrollment_lookup :=
                        foldl (\<lambda>lookup (enrollment_code, row_id, row_student_id).
                                 dict_set enrollment_code
                                   \<lparr>e_enrollment_id = row_id, e_student_id = row_student_id\<rparr> lookup)
                          (enrollment_lookup self) enrollment_df\<rparr>)
      in (case student_file inp of
            None \<Rightarrow> self
          | Some student_df \<Rightarrow>
              self\<lparr>student_lookup :=
                foldl (\<lambda>lookup (legacy_student_id, row_id).
                         case legacy_student_id of
                           None \<Rightarrow> lookup
                         | Some l \<Rightarrow> dict_set l row_id lookup)
                  (student_lookup self) student_df\<rparr>))"

definition load_legacy_data :: "input_files \<Rightarrow> transformer \<Rightarrow> py_error + transformer" where
  "load_legacy_data inp self =
     (case legacy_receipts_file inp of
        None \<Rightarrow> Inl FileNotFoundError
      | Some legacy_receipts_df \<Rightarrow>
          (let self = self\<lparr>legacy_receipts := legacy_receipts_df\<rparr>
           in Inr (case legacy_balance_file inp of
                     None \<Rightarrow> self
                   | Some balance_df \<Rightarrow> self\<lparr>legacy_balance_records := balance_df\<rparr>)))"

text \<open>The files of the output directory: the four tables and the import script.\<close>

datatype output_file =
    ReceiptsCsv "receipt_row list"
  | EventsCsv "ledger_event list"
  | AllocationsCsv "allocation list"
  | BalanceRecordsCsv "balance_row list"
  | ImportScript

text \<open>
  Writing a file can fail (\<open>to_csv\<close> and \<open>open\<close> raise \<open>OSError\<close>); which writes succeed
  is given by the environment \<open>can_write\<close>. The \<open>disk\<close> lists the files written, in
  order. A write that fails raises and leaves the disk as it was.
\<close>

definition write_file ::
  "(output_file \<Rightarrow> bool) \<Rightarrow> output_file \<Rightarrow> output_file list \<Rightarrow> py_error + output_file list" where
  "write_file can_write file disk = (if can_write file then Inr (disk @ [file]) else Inl OSError)"

text \<open>
  \<open>save_transformed_data\<close> writes a table only if it has rows. When a write raises, the
  files written before it stay: the result is the exception, if any, and the disk.
\<close>

definition save_table ::
  "(output_file \<Rightarrow> bool) \<Rightarrow> bool \<Rightarrow> output_file \<Rightarrow> py_error option \<times> output_file list
     \<Rightarrow> py_error option \<times> output_file list" where
  "save_table can_write has_rows file state =
     (case state of
        (Some e, disk) \<Rightarrow> (Some e, disk)
      | (None, disk) \<Rightarrow>
          if has_rows
          then (case write_file can_write file disk of
                  Inl e \<Rightarrow> (Some e, disk)
                | Inr disk \<Rightarrow> (None, disk))
          else (None, disk))"

definition save_transformed_data ::
  "(output_file \<Rightarrow> bool) \<Rightarrow> transformer \<Rightarrow> output_file list
     \<Rightarrow> py_error option \<times> output_file list" where
  "save_transformed_data can_write self disk =
     save_table can_write (transformed_balance_records self \<noteq> [])
       (BalanceRecordsCsv (transformed_balance_records self))
       (save_table can_write (transformed_allocations self \<noteq> [])
          (AllocationsCsv (transformed_allocations self))
          (save_table can_write (transformed_events self \<noteq> [])
             (EventsCsv (transformed_events self))
             (save_table can_write (transformed_receipts self \<noteq> [])
                (ReceiptsCsv (transformed_receipts self)) (None, disk))))"

definition generate_import_script ::
  "(output_file \<Rightarrow> bool) \<Rightarrow> output_file list \<Rightarrow> py_error option \<times> output_file list" where
  "generate_import_script can_write disk =
     (case write_file can_write ImportScript disk of
        Inl e \<Rightarrow> (Some e, disk)
      | Inr disk \<Rightarrow> (None, disk))"

text \<open>
  \<open>run_complete_transformation\<close> on a new transformer: the exception it re-raises, if any,
  and the files written, after those already on the \<open>disk\<close>.
  (\<open>create_fee_components\<close> sets the constant table \<open>fee_component_id\<close>.)
\<close>

definition run_complete_transformation ::
  "(output_file \<Rightarrow> bool) \<Rightarrow> input_files \<Rightarrow> output_file list
     \<Rightarrow> py_error option \<times> output_file list" where
  "run_complete_transformation can_write inp disk =
     (let self = load_mappings inp new_transformer in
      case load_legacy_data inp self of
        Inl e \<Rightarrow> (Some e, disk)
      | Inr self \<Rightarrow>
          (case transform_all_receipts self of
             Inl e \<Rightarrow> (Some e, disk)
           | Inr self \<Rightarrow>
               (case save_transformed_data can_write self disk of
                  (Some e, disk) \<Rightarrow> (Some e, disk)
                | (None, disk) \<Rightarrow> generate_import_script can_write disk)))"

text \<open>The transformer after the loading steps, given the loaded tables.\<close>

definition loaded ::
  "enrollment_lookup \<Rightarrow> student_lookup \<Rightarrow> legacy_receipt list \<Rightarrow> balance_record list
     \<Rightarrow> transformer" where
  "loaded el sl receipts balances =
     new_transformer\<lparr>enrollment_lookup := el, student_lookup := sl,
       legacy_receipts := receipts, legacy_balance_records := balances\<rparr>"

subsection \<open>Vocabulary of the properties\<close>

text \<open>
  What the Receipts table has to say about a legacy receipt: its identifier, the status, and
  the total and paid amounts.
\<close>

definition receipt_row_of :: "legacy_receipt \<Rightarrow> string \<times> receipt_status \<times> pyfloat \<times> pyfloat" where
  "receipt_row_of r =
     (r_id r, if is_cancelled r then CANCELLED else ACTIVE,
      fee_amount r reg_fee + fee_amount r sec_fee + fee_amount r tut_fee + fee_amount r other_fee,
      fee_amount r reg_fee + fee_amount r sec_fee + fee_amount r tut_fee + fee_amount r other_fee)"

definition row_summary :: "receipt_row \<Rightarrow> string \<times> receipt_status \<times> pyfloat \<times> pyfloat" where
  "row_summary row =
     (rr_legacy_receipt_id row, rr_status row, rr_total_amount row, rr_paid_amount row)"

text \<open>
  The text \<open>generate_unique_receipt_number\<close> tests for a receipt:
  \<open>str(receipt.get('receipt_no', '')).strip()\<close>.
\<close>

definition receipt_no_text :: "legacy_receipt \<Rightarrow> string" where
  "receipt_no_text r = strip (py_str (receipt_no r))"

text \<open>
  The numbers of a sequence of receipts, given each receipt's text and the number it
  received, the numbers \<open>earlier\<close> given out before them and the counter \<open>c\<close>: a
  receipt keeps its text exactly when the text is not empty, not \<open>0\<close> and not among the
  numbers given out earlier, and the counter stays; otherwise its number is \<open>MIG-\<close> with the
  first counter value from \<open>c\<close> on whose number was not given out earlier, and the counter
  goes on behind it.
\<close>

fun numbered :: "string list \<Rightarrow> nat \<Rightarrow> (string \<times> string) list \<Rightarrow> bool" where
  "numbered earlier c [] \<longleftrightarrow> True"
| "numbered earlier c ((text, n) # rest) \<longleftrightarrow>
     (if text \<noteq> [] \<and> text \<noteq> ''0'' \<and> text \<notin> set earlier
      then n = text \<and> numbered (earlier @ [n]) c rest
      else (let k = nat_of_digits (drop 4 n)
            in n = mig_number k \<and> c \<le> k \<and> n \<notin> set earlier \<and>
               list_all (\<lambda>j. mig_number j \<in> set earlier) [c ..< k] \<and>
               numbered (earlier @ [n]) (k + 1) rest))"

text \<open>The numbers that a sequence of calls of \<open>generate_unique_receipt_number\<close> returns.\<close>

fun assign_numbers :: "string fset \<Rightarrow> nat \<Rightarrow> cell option list \<Rightarrow> string list" where
  "assign_numbers used c [] = []"
| "assign_numbers used c (v # vs) =
     (case generate_unique_receipt_number v used c of
        (n, used', c') \<Rightarrow> n # assign_numbers used' c' vs)"

text \<open>A receipt pays when one of its four amounts is strictly positive.\<close>

definition pays :: "legacy_receipt \<Rightarrow> bool" where
  "pays receipt \<longleftrightarrow> list_ex (\<lambda>component. fee_amount receipt component > 0) fee_fields"

text \<open>The opening charge and the payment event of a receipt and a component.\<close>

definition opening_charge :: "legacy_receipt \<Rightarrow> balance_record option \<Rightarrow> component \<Rightarrow> fee_event" where
  "opening_charge receipt b component =
     \<lparr>fe_receipt = receipt, fe_component = component, fe_event_type = CHARGE_CREATED,
      fe_amount = balance_amount b component + fee_amount receipt component,
      fe_running_balance = balance_amount b component + fee_amount receipt component,
      fe_is_initial_charge = True\<rparr>"

definition payment_event :: "legacy_receipt \<Rightarrow> balance_record option \<Rightarrow> component \<Rightarrow> fee_event" where
  "payment_event receipt b component =
     \<lparr>fe_receipt = receipt, fe_component = component, fe_event_type = PAYMENT_RECEIVED,
      fe_amount = - fee_amount receipt component,
      fe_running_balance = balance_amount b component,
      fe_is_initial_charge = False\<rparr>"

text \<open>
  The rows that the per-component loop of a receipt appends, given the identifier \<open>rid\<close> of
  the receipt row, the next free identifier \<open>u\<close> and the running balance \<open>rb\<close>.
\<close>

definition receipt_event ::
  "legacy_receipt \<Rightarrow> string \<Rightarrow> nat \<Rightarrow> nat \<Rightarrow> pyfloat \<Rightarrow> component \<Rightarrow> ledger_event" where
  "receipt_event r e rid u rb c =
     \<lparr>le_id = u,
      le_event_type = (if is_cancelled r then PAYMENT_CANCELLED else PAYMENT_RECEIVED),
      le_event_date = r_fee_date r,
      le_enrollment_id = e,
      le_fee_component_id = fee_component_id c,
      le_amount = fee_amount r c,
      le_running_balance = rb - fee_amount r c,
      le_receipt_id = Some rid,
      le_legacy_receipt_id = r_id r\<rparr>"

definition receipt_allocation ::
  "legacy_receipt \<Rightarrow> string \<Rightarrow> nat \<Rightarrow> nat \<Rightarrow> component \<Rightarrow> allocation" where
  "receipt_allocation r e rid u c =
     \<lparr>al_id = u + 1,
      al_receipt_id = rid,
      al_ledger_event_id = u,
      al_fee_component_id = fee_component_id c,
      al_allocated_amount = fee_amount r c,
      al_enrollment_id = e,
      al_legacy_record_id = r_id r\<rparr>"

fun component_events ::
  "legacy_receipt \<Rightarrow> string \<Rightarrow> nat \<Rightarrow> nat \<Rightarrow> pyfloat \<Rightarrow> component list \<Rightarrow> ledger_event list" where
  "component_events r e rid u rb [] = []"
| "component_events r e rid u rb (c # cs) =
     (if 0 < fee_amount r c
      then receipt_event r e rid u rb c # component_events r e rid (u + 2) (rb - fee_amount r c) cs
      else component_events r e rid u rb cs)"

fun component_balance :: "legacy_receipt \<Rightarrow> pyfloat \<Rightarrow> component list \<Rightarrow> pyfloat" where
  "component_balance r rb [] = rb"
| "component_balance r rb (c # cs) =
     (if 0 < fee_amount r c then component_balance r (rb - fee_amount r c) cs
      else component_balance r rb cs)"

fun component_allocations ::
  "legacy_receipt \<Rightarrow> string \<Rightarrow> nat \<Rightarrow> nat \<Rightarrow> component list \<Rightarrow> allocation list" where
  "component_allocations r e rid u [] = []"
| "component_allocations r e rid u (c # cs) =
     (if 0 < fee_amount r c
      then receipt_allocation r e rid u c # component_allocations r e rid (u + 2) cs
      else component_allocations r e rid u cs)"

text \<open>
  What the Allocations table has to say about a receipt row, its legacy receipt and a
  component: among the allocations that reference the row and the component there is none if
  the legacy amount is not strictly positive, and otherwise exactly one, of that amount, whose
  ledger event identifier names exactly one ledger event, which is linked to the row and is an
  event of that component, amount and legacy receipt.
\<close>

definition allocation_ok :: "transformer \<Rightarrow> receipt_row \<Rightarrow> legacy_receipt \<Rightarrow> component \<Rightarrow> bool" where
  "allocation_ok out row r c \<longleftrightarrow>
     (case filter (\<lambda>a. al_receipt_id a = rr_id row \<and> al_fee_component_id a = fee_component_id c)
             (transformed_allocations out) of
        [] \<Rightarrow> \<not> 0 < fee_amount r c
      | [a] \<Rightarrow>
          0 < fee_amount r c \<and> al_allocated_amount a = fee_amount r c \<and>
          al_legacy_record_id a = r_id r \<and>
          (case filter (\<lambda>ev. le_id ev = al_ledger_event_id a) (transformed_events out) of
             [ev] \<Rightarrow> le_receipt_id ev = Some (rr_id row) \<and>
                     le_fee_component_id ev = fee_component_id c \<and>
                     le_amount ev = fee_amount r c \<and>
                     le_legacy_receipt_id ev = r_id r
           | _ \<Rightarrow> False)
      | _ \<Rightarrow> False)"

text \<open>A receipt row is the row of a legacy receipt and has its allocations.\<close>

definition receipt_ok :: "transformer \<Rightarrow> receipt_row \<Rightarrow> legacy_receipt \<Rightarrow> bool" where
  "receipt_ok out row r \<longleftrightarrow>
     rr_legacy_receipt_id row = r_id r \<and> list_all (allocation_ok out row r) fee_fields"

text \<open>The identifiers handed out so far lie below the identifier supply.\<close>

definition ids_below :: "transformer \<Rightarrow> bool" where
  "ids_below self \<longleftrightarrow>
     list_all (\<lambda>row. rr_id row < uuid_counter self) (transformed_receipts self) \<and>
     list_all (\<lambda>ev. le_id ev < uuid_counter self) (transformed_events self) \<and>
     list_all (\<lambda>a. al_receipt_id a < uuid_counter self \<and> al_ledger_event_id a < uuid_counter self)
       (transformed_allocations self)"





text \<open>
  The events of a run that are linked to a receipt row and belong to a component; the
  invariant that the receipt links of the events lie below the identifier supply; and what
  the per-receipt pass leaves for a receipt and a component: no linked event, or its one
  \<open>receipt_event\<close>, whose running balance counts down from zero over the components of
  the receipt.
\<close>

definition linked_events :: "transformer \<Rightarrow> receipt_row \<Rightarrow> component \<Rightarrow> ledger_event list" where
  "linked_events out row c =
     filter (\<lambda>ev. le_receipt_id ev = Some (rr_id row) \<and> le_fee_component_id ev = fee_component_id c)
       (transformed_events out)"

definition links_below :: "transformer \<Rightarrow> bool" where
  "links_below self \<longleftrightarrow>
     list_all (\<lambda>ev. case le_receipt_id ev of None \<Rightarrow> True | Some x \<Rightarrow> x < uuid_counter self)
       (transformed_events self)"

definition linked_event_is :: "transformer \<Rightarrow> receipt_row \<Rightarrow> legacy_receipt \<Rightarrow> component \<Rightarrow> bool" where
  "linked_event_is out row r c \<longleftrightarrow>
     (\<exists>u. linked_events out row c
        = (if 0 < fee_amount r c
           then [receipt_event r (rr_enrollment_id row) (rr_id row) u
                   (component_balance r 0 (takeWhile (\<lambda>c'. c' \<noteq> c) fee_fields)) c]
           else []))"

text \<open>
  The amount and running balance, and the type and running balance, of the event linked to a
  receipt row for a component.
\<close>

definition receipt_payment_event ::
  "transformer \<Rightarrow> receipt_row \<Rightarrow> legacy_receipt \<Rightarrow> component \<Rightarrow> bool" where
  "receipt_payment_event out row r c \<longleftrightarrow>
     (case linked_events out row c of
        [] \<Rightarrow> \<not> 0 < fee_amount r c
      | [ev] \<Rightarrow>
          0 < fee_amount r c \<and> le_amount ev = fee_amount r c \<and>
          le_running_balance ev
            = component_balance r 0 (takeWhile (\<lambda>c'. c' \<noteq> c) fee_fields) - fee_amount r c
      | _ \<Rightarrow> False)"

definition receipt_event_type ::
  "transformer \<Rightarrow> receipt_row \<Rightarrow> legacy_receipt \<Rightarrow> component \<Rightarrow> bool" where
  "receipt_event_type out row r c \<longleftrightarrow>
     (case linked_events out row c of
        [] \<Rightarrow> \<not> 0 < fee_amount r c
      | [ev] \<Rightarrow>
          0 < fee_amount r c \<and>
          le_event_type ev = (if is_cancelled r then PAYMENT_CANCELLED else PAYMENT_RECEIVED) \<and>
          le_running_balance ev
            = component_balance r 0 (takeWhile (\<lambda>c'. c' \<noteq> c) fee_fields) - fee_amount r c
      | _ \<Rightarrow> False)"

text \<open>An event as its type, legacy receipt, amount, running balance and receipt link.\<close>

definition event_summary ::
  "ledger_event \<Rightarrow> event_type \<times> string \<times> pyfloat \<times> pyfloat \<times> nat option" where
  "event_summary ev =
     (le_event_type ev, le_legacy_receipt_id ev, le_amount ev, le_running_balance ev,
      le_receipt_id ev)"

text \<open>Example data: one enrollment, reached by its code.\<close>

definition ex_lookup :: enrollment_lookup where
  "ex_lookup = [(''E1'', \<lparr>e_enrollment_id = ''EN1'', e_student_id = ''S1''\<rparr>)]"

definition ex_receipt :: "string \<Rightarrow> string \<Rightarrow> int \<Rightarrow> int option \<Rightarrow> int option \<Rightarrow> bool
    \<Rightarrow> string option \<Rightarrow> legacy_receipt" where
  "ex_receipt rid sid d reg tut cancelled no =
     \<lparr>r_id = rid, r_student_id = sid, r_enrol_id = ''E1'', r_fee_date = d,
      r_reg_fee = map_option Finite reg, r_sec_fee = None, r_tut_fee = map_option Finite tut,
      r_other_fee = None, r_is_cancelled = Some (BoolCell cancelled),
      r_receipt_no = map_option StrCell no\<rparr>"

definition ex_balance :: "string \<Rightarrow> int \<Rightarrow> int \<Rightarrow> balance_record" where
  "ex_balance rid reg tut =
     \<lparr>b_feereceipt_id = rid, b_reg_balance = Some (Finite reg), b_sec_balance = None,
      b_tut_balance = Some (Finite tut), b_other_balance = None\<rparr>"

section \<open>Properties\<close>

subsection \<open>Float arithmetic\<close>

lemma pyfloat_plus [simp]:
  "Finite x + Finite y = Finite (x + y)" "NaN + a = NaN" "a + NaN = NaN"
  by (simp_all add: plus_pyfloat_def split: pyfloat.splits)

lemma pyfloat_minus [simp]:
  "Finite x - Finite y = Finite (x - y)" "NaN - a = NaN" "a - NaN = NaN"
  by (simp_all add: minus_pyfloat_def split: pyfloat.splits)

lemma pyfloat_uminus [simp]: "- Finite x = Finite (- x)" "- NaN = NaN"
  by (simp_all add: uminus_pyfloat_def)

lemma pyfloat_less [simp]:
  "Finite x < Finite y \<longleftrightarrow> x < y" "\<not> NaN < a" "\<not> a < NaN"
  by (simp_all add: less_pyfloat_def split: pyfloat.splits)

lemma pyfloat_zero_plus [simp]: "(0 :: pyfloat) + a = a" "a + (0 :: pyfloat) = a"
  by (simp_all add: zero_pyfloat_def plus_pyfloat_def split: pyfloat.splits)

lemma pyfloat_zero_less [simp]: "0 < Finite x \<longleftrightarrow> 0 < x" "Finite x < 0 \<longleftrightarrow> x < 0"
  by (simp_all add: zero_pyfloat_def)

lemma pyfloat_positive: "0 < a \<longleftrightarrow> (\<exists>x. a = Finite x \<and> 0 < x)"
  by (cases a) simp_all

subsection \<open>What each loop leaves unchanged\<close>

lemma emit_history_event_frame:
  "enrollment_lookup (emit_history_event e self ev) = enrollment_lookup self"
  "student_lookup (emit_history_event e self ev) = student_lookup self"
  "legacy_receipts (emit_history_event e self ev) = legacy_receipts self"
  "legacy_balance_records (emit_history_event e self ev) = legacy_balance_records self"
  "used_receipt_numbers (emit_history_event e self ev) = used_receipt_numbers self"
  "receipt_counter (emit_history_event e self ev) = receipt_counter self"
  "transformed_receipts (emit_history_event e self ev) = transformed_receipts self"
  "transformed_allocations (emit_history_event e self ev) = transformed_allocations self"
  "transformed_balance_records (emit_history_event e self ev) = transformed_balance_records self"
  by (simp_all add: emit_history_event_def)

lemma emit_history_events_frame:
  "enrollment_lookup (foldl (emit_history_event e) self evs) = enrollment_lookup self"
  "student_lookup (foldl (emit_history_event e) self evs) = student_lookup self"
  "legacy_receipts (foldl (emit_history_event e) self evs) = legacy_receipts self"
  "legacy_balance_records (foldl (emit_history_event e) self evs) = legacy_balance_records self"
  "used_receipt_numbers (foldl (emit_history_event e) self evs) = used_receipt_numbers self"
  "receipt_counter (foldl (emit_history_event e) self evs) = receipt_counter self"
  "transformed_receipts (foldl (emit_history_event e) self evs) = transformed_receipts self"
  "transformed_allocations (foldl (emit_history_event e) self evs) = transformed_allocations self"
  "transformed_balance_records (foldl (emit_history_event e) self evs)
     = transformed_balance_records self"
  by (induction evs arbitrary: self; simp add: emit_history_event_frame)+

lemma process_enrollment_frame:
  "enrollment_lookup (process_enrollment self g) = enrollment_lookup self"
  "student_lookup (process_enrollment self g) = student_lookup self"
  "legacy_receipts (process_enrollment self g) = legacy_receipts self"
  "legacy_balance_records (process_enrollment self g) = legacy_balance_records self"
  "used_receipt_numbers (process_enrollment self g) = used_receipt_numbers self"
  "receipt_counter (process_enrollment self g) = receipt_counter self"
  "transformed_receipts (process_enrollment self g) = transformed_receipts self"
  "transformed_allocations (process_enrollment self g) = transformed_allocations self"
  "transformed_balance_records (process_enrollment self g) = transformed_balance_records self"
  by (simp_all add: process_enrollment_def emit_history_events_frame Let_def
      split: prod.splits list.splits)

lemma process_enrollments_frame:
  "enrollment_lookup (foldl process_enrollment self gs) = enrollment_lookup self"
  "student_lookup (foldl process_enrollment self gs) = student_lookup self"
  "legacy_receipts (foldl process_enrollment self gs) = legacy_receipts self"
  "legacy_balance_records (foldl process_enrollment self gs) = legacy_balance_records self"
  "used_receipt_numbers (foldl process_enrollment self gs) = used_receipt_numbers self"
  "receipt_counter (foldl process_enrollment self gs) = receipt_counter self"
  "transformed_receipts (foldl process_enrollment self gs) = transformed_receipts self"
  "transformed_allocations (foldl process_enrollment self gs) = transformed_allocations self"
  "transformed_balance_records (foldl process_enrollment self gs)
     = transformed_balance_records self"
  by (induction gs arbitrary: self; simp add: process_enrollment_frame)+

lemma emit_history_frame:
  "enrollment_lookup (emit_history self) = enrollment_lookup self"
  "student_lookup (emit_history self) = student_lookup self"
  "legacy_receipts (emit_history self) = legacy_receipts self"
  "legacy_balance_records (emit_history self) = legacy_balance_records self"
  "used_receipt_numbers (emit_history self) = used_receipt_numbers self"
  "receipt_counter (emit_history self) = receipt_counter self"
  "transformed_receipts (emit_history self) = transformed_receipts self"
  "transformed_allocations (emit_history self) = transformed_allocations self"
  "transformed_balance_records (emit_history self) = transformed_balance_records self"
  by (simp_all add: emit_history_def process_enrollments_frame)

lemma resolve_cong:
  "enrollment_lookup a = enrollment_lookup b \<Longrightarrow> student_lookup a = student_lookup b
     \<Longrightarrow> resolve a = resolve b"
  by (rule ext) (simp add: resolve_def)

lemma process_receipt_frame:
  "enrollment_lookup (process_receipt self r) = enrollment_lookup self"
  "student_lookup (process_receipt self r) = student_lookup self"
  "legacy_receipts (process_receipt self r) = legacy_receipts self"
  "legacy_balance_records (process_receipt self r) = legacy_balance_records self"
  by (simp_all add: process_receipt_def Let_def split: option.splits prod.splits)

lemma process_receipts_frame:
  "enrollment_lookup (foldl process_receipt self rs) = enrollment_lookup self"
  "student_lookup (foldl process_receipt self rs) = student_lookup self"
  "legacy_receipts (foldl process_receipt self rs) = legacy_receipts self"
  "legacy_balance_records (foldl process_receipt self rs) = legacy_balance_records self"
  by (induction rs arbitrary: self; simp add: process_receipt_frame)+

subsection \<open>Evaluation of the examples\<close>

lemmas ex_defs = ex_lookup_def ex_receipt_def ex_balance_def loaded_def new_transformer_def
lemmas resolve_defs = resolve_def find_enrollment_id_def enrollment_of_student_def
  extract_student_id_def is_digit_def

subsection \<open>Receipts\<close>

lemma resolve_process_receipt: "resolve (process_receipt self r) = resolve self"
  by (rule resolve_cong) (simp_all add: process_receipt_frame)

lemma resolve_emit_history: "resolve (emit_history self) = resolve self"
  by (rule resolve_cong) (simp_all add: emit_history_frame)

lemma calculate_total_amount_eq:
  "calculate_total_amount r
     = fee_amount r reg_fee + fee_amount r sec_fee + fee_amount r tut_fee + fee_amount r other_fee"
  by (simp add: calculate_total_amount_def)

lemma process_receipt_rows:
  "map row_summary (transformed_receipts (process_receipt self r))
     = map row_summary (transformed_receipts self)
       @ (if resolve self r \<noteq> None then [receipt_row_of r] else [])"
  by (simp add: process_receipt_def Let_def calculate_total_amount_eq row_summary_def
      receipt_row_of_def split: option.splits prod.splits)

lemma process_receipts_rows:
  "map row_summary (transformed_receipts (foldl process_receipt self rs))
     = map row_summary (transformed_receipts self)
       @ map receipt_row_of (filter (\<lambda>r. resolve self r \<noteq> None) rs)"
proof (induction rs arbitrary: self)
  case Nil
  show ?case by simp
next
  case (Cons r rs)
  show ?case
    by (simp add: Cons.IH [of "process_receipt self r"] process_receipt_rows
        resolve_process_receipt)
qed

text \<open>
  Claim C6, what the code does. The Receipts table of a run has exactly one row for each
  legacy receipt whose enrollment resolves, in input order, cancelled and zero-total receipts
  included. The row's status is CANCELLED iff the cell of the cancellation flag is true in
  Python's sense, and its total and paid amounts are both the float sum of the four legacy
  component amounts. For a boolean flag and four numbers this is the claim; an empty cell
  (NaN) counts as a set flag, and an empty amount cell makes the sum NaN.
\<close>

theorem receipts_exactly_once:
  "map row_summary (transformed_receipts (emit_rows (loaded el sl receipts balances)))
     = map receipt_row_of
         (filter (\<lambda>r. resolve (loaded el sl receipts balances) r \<noteq> None) receipts)"
proof -
  let ?self = "loaded el sl receipts balances"
  have "legacy_receipts ?self = receipts" "transformed_receipts ?self = []"
    by (simp_all add: loaded_def new_transformer_def)
  then show ?thesis
    by (simp add: emit_rows_def process_receipts_rows emit_history_frame resolve_emit_history)
qed

theorem receipts_exactly_once_witness:
  "map row_summary (transformed_receipts (emit_rows (loaded ex_lookup []
       [ex_receipt ''1'' ''10'' 1 (Some 100) None True None,
        (ex_receipt ''2'' ''10'' 2 (Some 5) None False None)\<lparr>r_enrol_id := ''X''\<rparr>,
        ex_receipt ''3'' ''10'' 3 None None False None] [])))
     = [(''1'', CANCELLED, Finite 100, Finite 100), (''3'', ACTIVE, Finite 0, Finite 0)]"
  using receipts_exactly_once [of ex_lookup "[]"
       "[ex_receipt ''1'' ''10'' 1 (Some 100) None True None,
        (ex_receipt ''2'' ''10'' 2 (Some 5) None False None)\<lparr>r_enrol_id := ''X''\<rparr>,
        ex_receipt ''3'' ''10'' 3 None None False None]" "[]"]
  by (simp add: ex_defs resolve_defs receipt_row_of_def float_or_0_def is_cancelled_def
      zero_pyfloat_def)

text \<open>
  Two receipts with empty cells. The first has an empty cancellation flag and is written as
  CANCELLED; the second has an empty tuition amount beside a registration amount of 100 and
  is written with total and paid amount NaN.
\<close>

theorem empty_cells_counterexample:
  "map row_summary (transformed_receipts (emit_rows (loaded ex_lookup []
       [(ex_receipt ''1'' ''10'' 1 (Some 100) None False None)
          \<lparr>r_is_cancelled := Some (FloatCell NaN)\<rparr>,
        (ex_receipt ''2'' ''10'' 2 (Some 100) None False None)
          \<lparr>r_tut_fee := Some NaN\<rparr>] [])))
     = [(''1'', CANCELLED, Finite 100, Finite 100), (''2'', ACTIVE, NaN, NaN)]"
  by code_simp

subsection \<open>Receipt numbers\<close>

lemma generate_unique_result:
  assumes "generate_unique_receipt_number (Some v) used c = (n, used', c')"
  shows "n |\<notin>| used \<and> used' = finsert n used \<and>
     (if strip (py_str v) \<noteq> [] \<and> strip (py_str v) \<noteq> ''0'' \<and> strip (py_str v) |\<notin>| used
      then n = strip (py_str v) \<and> c' = c
      else n = mig_number (c' - 1) \<and> c < c' \<and>
           (\<forall>k. c \<le> k \<and> k < c' - 1 \<longrightarrow> mig_number k |\<in>| used))"
proof (cases "strip (py_str v) \<noteq> [] \<and> strip (py_str v) \<noteq> ''0'' \<and> strip (py_str v) |\<notin>| used")
  case True
  then show ?thesis
    using assms by (auto simp: generate_unique_receipt_number_def Let_def)
next
  case False
  then have "mig_loop used c = (n, used', c')"
    using assms by (auto simp: generate_unique_receipt_number_def Let_def)
  from mig_loop_result [OF this] False show ?thesis by auto
qed

lemma finsert_fset_of_list: "finsert n (fset_of_list xs) = fset_of_list (xs @ [n])"
  by (auto simp: fset_of_list_elem)

lemma assign_numbers_length: "length (assign_numbers used c vs) = length vs"
  by (induction vs arbitrary: used c) (simp_all split: prod.splits)

lemma assign_numbers_numbered:
  "numbered earlier c
     (zip (map (\<lambda>v. strip (py_str v)) vs)
        (assign_numbers (fset_of_list earlier) c (map Some vs)))"
proof (induction vs arbitrary: earlier c)
  case Nil
  show ?case by simp
next
  case (Cons v vs)
  obtain n used' c' where g:
    "generate_unique_receipt_number (Some v) (fset_of_list earlier) c = (n, used', c')"
    by (cases "generate_unique_receipt_number (Some v) (fset_of_list earlier) c") auto
  note res = generate_unique_result [OF g]
  have "used' = finsert n (fset_of_list earlier)" using res by simp
  then have used': "used' = fset_of_list (earlier @ [n])"
    by (simp only: finsert_fset_of_list)
  have notin: "n \<notin> set earlier" using res by (simp add: fset_of_list_elem)
  show ?case
  proof (cases "strip (py_str v) \<noteq> [] \<and> strip (py_str v) \<noteq> ''0''
      \<and> strip (py_str v) \<notin> set earlier")
    case True
    then have "n = strip (py_str v)" "c' = c" using res by (simp_all add: fset_of_list_elem)
    then show ?thesis
      using True Cons.IH [of "earlier @ [n]" c] g used' by simp
  next
    case False
    then have mig: "n = mig_number (c' - 1)" "c < c'"
      "\<forall>k. c \<le> k \<and> k < c' - 1 \<longrightarrow> mig_number k \<in> set earlier"
      using res by (auto simp: fset_of_list_elem)
    have k: "nat_of_digits (drop 4 n) = c' - 1" by (simp only: mig(1) nat_of_digits_mig)
    have c': "c' - 1 + 1 = c'" using mig(2) by simp
    have "list_all (\<lambda>j. mig_number j \<in> set earlier) [c ..< c' - 1]"
      using mig(3) by (simp add: list_all_iff)
    moreover have "c \<le> c' - 1" using mig(2) by simp
    moreover have "numbered (earlier @ [n]) (c' - 1 + 1)
        (zip (map (\<lambda>v. strip (py_str v)) vs)
           (assign_numbers (fset_of_list (earlier @ [n])) c' (map Some vs)))"
      using Cons.IH [of "earlier @ [n]" c'] by (simp only: c')
    ultimately show ?thesis
      using False g used' notin mig(1) by (auto simp: nat_of_digits_mig Let_def)
  qed
qed

lemma numbered_distinct:
  "numbered earlier c (zip ts ns) \<Longrightarrow> length ts = length ns \<Longrightarrow> distinct earlier
     \<Longrightarrow> distinct (earlier @ ns)"
proof (induction ns arbitrary: earlier c ts)
  case Nil
  then show ?case by simp
next
  case (Cons n ns)
  then obtain t ts' where ts: "ts = t # ts'" by (cases ts) auto
  have len: "length ts' = length ns" using Cons.prems(2) ts by simp
  have "n \<notin> set earlier \<and> (\<exists>c'. numbered (earlier @ [n]) c' (zip ts' ns))"
    using Cons.prems(1) ts by (auto simp: Let_def split: if_splits)
  then obtain c' where n: "n \<notin> set earlier" and rest: "numbered (earlier @ [n]) c' (zip ts' ns)"
    by blast
  have "distinct (earlier @ [n])" using n Cons.prems(3) by simp
  from Cons.IH [OF rest len this] show ?case by simp
qed

lemma process_receipt_numbers:
  "map rr_receipt_number (transformed_receipts (process_receipt self r))
     = map rr_receipt_number (transformed_receipts self)
       @ assign_numbers (used_receipt_numbers self) (receipt_counter self)
           (map (\<lambda>r. Some (receipt_no r)) (if resolve self r \<noteq> None then [r] else []))"
  by (simp add: process_receipt_def Let_def split: option.splits prod.splits)

lemma process_receipt_numbering:
  "resolve self r \<noteq> None \<Longrightarrow>
     generate_unique_receipt_number (Some (receipt_no r)) (used_receipt_numbers self)
       (receipt_counter self) = (n, used', c')
     \<Longrightarrow> used_receipt_numbers (process_receipt self r) = used'
         \<and> receipt_counter (process_receipt self r) = c'"
  by (auto simp: process_receipt_def Let_def split: option.splits prod.splits)

lemma process_receipts_numbers:
  "map rr_receipt_number (transformed_receipts (foldl process_receipt self rs))
     = map rr_receipt_number (transformed_receipts self)
       @ assign_numbers (used_receipt_numbers self) (receipt_counter self)
           (map (\<lambda>r. Some (receipt_no r)) (filter (\<lambda>r. resolve self r \<noteq> None) rs))"
proof (induction rs arbitrary: self)
  case Nil
  show ?case by simp
next
  case (Cons r rs)
  show ?case
  proof (cases "resolve self r")
    case None
    then have "process_receipt self r = self" by (simp add: process_receipt_def)
    then show ?thesis using None Cons.IH [of self] by simp
  next
    case (Some e)
    obtain n used' c' where g: "generate_unique_receipt_number (Some (receipt_no r))
        (used_receipt_numbers self) (receipt_counter self) = (n, used', c')"
      by (cases "generate_unique_receipt_number (Some (receipt_no r))
        (used_receipt_numbers self) (receipt_counter self)") auto
    have st: "used_receipt_numbers (process_receipt self r) = used'"
      "receipt_counter (process_receipt self r) = c'"
      using process_receipt_numbering [OF _ g] Some by simp_all
    show ?thesis
      using Some g
      by (simp add: Cons.IH [of "process_receipt self r"] process_receipt_numbers st
          resolve_process_receipt)
  qed
qed

text \<open>
  Claim C5, what the code does. The run writes one row for each resolved receipt, whatever
  its number, and the receipt numbers of the rows are pairwise distinct. Along the rows, a
  receipt keeps its legacy number, as \<open>str(...).strip()\<close> prints the cell, exactly when
  that text is not empty, not \<open>0\<close> and not the number of an earlier row; otherwise it
  receives \<open>MIG-\<close> and six digits, drawn from a counter that starts at 1 and only grows.
  For a text or an integer cell this is the claim. An empty cell prints as \<open>nan\<close> and a
  float zero as \<open>0.0\<close>: both pass the test and are kept as receipt numbers.
\<close>

theorem receipt_numbers_unique:
  "distinct (map rr_receipt_number
      (transformed_receipts (emit_rows (loaded el sl receipts balances))))
   \<and> length (transformed_receipts (emit_rows (loaded el sl receipts balances)))
       = length (filter (\<lambda>r. resolve (loaded el sl receipts balances) r \<noteq> None) receipts)
   \<and> numbered [] 1
       (zip (map receipt_no_text
               (filter (\<lambda>r. resolve (loaded el sl receipts balances) r \<noteq> None) receipts))
          (map rr_receipt_number
             (transformed_receipts (emit_rows (loaded el sl receipts balances)))))"
proof -
  let ?self = "loaded el sl receipts balances"
  let ?rs = "filter (\<lambda>r. resolve ?self r \<noteq> None) receipts"
  let ?ns = "map rr_receipt_number (transformed_receipts (emit_rows ?self))"
  have init: "legacy_receipts ?self = receipts" "transformed_receipts ?self = []"
    "used_receipt_numbers ?self = fset_of_list []" "receipt_counter ?self = 1"
    by (simp_all add: loaded_def new_transformer_def)
  have ns: "?ns = assign_numbers (fset_of_list []) 1 (map Some (map receipt_no ?rs))"
    by (simp add: emit_rows_def process_receipts_numbers emit_history_frame
        resolve_emit_history init comp_def del: fset_of_list_simps)
  have texts: "map receipt_no_text ?rs = map (\<lambda>v. strip (py_str v)) (map receipt_no ?rs)"
    by (simp add: receipt_no_text_def comp_def)
  have numbered: "numbered [] 1 (zip (map receipt_no_text ?rs) ?ns)"
    unfolding ns texts by (rule assign_numbers_numbered)
  have len: "length ?ns = length ?rs"
    unfolding ns by (simp add: assign_numbers_length)
  then have "length (map receipt_no_text ?rs) = length ?ns" by simp
  from numbered_distinct [OF numbered this] have "distinct ?ns" by simp
  with numbered len show ?thesis by simp
qed

theorem receipt_numbers_unique_witness:
  "distinct (map rr_receipt_number (transformed_receipts (emit_rows (loaded ex_lookup []
       [ex_receipt ''1'' ''10'' 1 (Some 100) None False (Some '' R7 ''),
        ex_receipt ''2'' ''10'' 2 (Some 100) None False (Some ''R7''),
        ex_receipt ''3'' ''10'' 3 None None False (Some ''MIG-000001''),
        ex_receipt ''4'' ''10'' 4 None None False (Some ''0''),
        ex_receipt ''5'' ''10'' 5 None None False None] []))))
   \<and> map rr_receipt_number (transformed_receipts (emit_rows (loaded ex_lookup []
       [ex_receipt ''1'' ''10'' 1 (Some 100) None False (Some '' R7 ''),
        ex_receipt ''2'' ''10'' 2 (Some 100) None False (Some ''R7''),
        ex_receipt ''3'' ''10'' 3 None None False (Some ''MIG-000001''),
        ex_receipt ''4'' ''10'' 4 None None False (Some ''0''),
        ex_receipt ''5'' ''10'' 5 None None False None] [])))
     = [''R7'', ''MIG-000001'', ''MIG-000002'', ''MIG-000003'', ''MIG-000004'']"
proof (intro conjI)
  show "distinct (map rr_receipt_number (transformed_receipts (emit_rows (loaded ex_lookup []
       [ex_receipt ''1'' ''10'' 1 (Some 100) None False (Some '' R7 ''),
        ex_receipt ''2'' ''10'' 2 (Some 100) None False (Some ''R7''),
        ex_receipt ''3'' ''10'' 3 None None False (Some ''MIG-000001''),
        ex_receipt ''4'' ''10'' 4 None None False (Some ''0''),
        ex_receipt ''5'' ''10'' 5 None None False None] []))))"
    by (rule conjunct1 [OF receipt_numbers_unique])
qed code_simp

text \<open>
  Three receipts whose number cell is empty, a float zero and an integer zero: the first two
  keep \<open>nan\<close> and \<open>0.0\<close> as their receipt numbers, only the third receives a synthetic
  number.
\<close>

theorem empty_receipt_number_counterexample:
  "map rr_receipt_number (transformed_receipts (emit_rows (loaded ex_lookup []
       [(ex_receipt ''1'' ''10'' 1 (Some 100) None False None)
          \<lparr>r_receipt_no := Some (FloatCell NaN)\<rparr>,
        (ex_receipt ''2'' ''10'' 2 (Some 100) None False None)
          \<lparr>r_receipt_no := Some (FloatCell (Finite 0))\<rparr>,
        (ex_receipt ''3'' ''10'' 3 (Some 100) None False None)
          \<lparr>r_receipt_no := Some (IntCell 0)\<rparr>] [])))
     = [''nan'', ''0.0'', ''MIG-000001'']"
  by code_simp

subsection \<open>The reconstructed history\<close>

lemma payment_events_empty: "payment_events r b = [] \<longleftrightarrow> \<not> pays r"
  by (auto simp: payment_events_def pays_def fee_fields_def Let_def)

lemma charge_events_empty: "\<not> pays r \<Longrightarrow> charge_events r b = []"
  by (auto simp: charge_events_def pays_def fee_fields_def Let_def)

lemma history_fold_nonempty:
  "acc \<noteq> [] \<Longrightarrow> foldl (history_step bs) acc rs
     = acc @ concat (map (\<lambda>r. payment_events r (find_balance_record bs (r_id r))) rs)"
  by (induction rs arbitrary: acc) (simp_all add: history_step_def Let_def)

lemma history_fold_empty:
  "foldl (history_step bs) [] rs
     = (case dropWhile (\<lambda>r. \<not> pays r) rs of
          [] \<Rightarrow> []
        | r # rest \<Rightarrow>
            charge_events r (find_balance_record bs (r_id r))
            @ concat (map (\<lambda>r. payment_events r (find_balance_record bs (r_id r))) (r # rest)))"
proof (induction rs)
  case Nil
  show ?case by simp
next
  case (Cons r rs)
  show ?case
  proof (cases "pays r")
    case False
    then have "history_step bs [] r = []"
      by (simp add: history_step_def Let_def charge_events_empty payment_events_empty)
    then show ?thesis using False Cons.IH by simp
  next
    case True
    then have ne: "history_step bs [] r \<noteq> []"
      by (simp add: history_step_def Let_def payment_events_empty)
    show ?thesis
      using True by (simp add: history_fold_nonempty [OF ne]) (simp add: history_step_def Let_def)
  qed
qed

lemma concat_map_if: "concat (map (\<lambda>x. if P x then [f x] else []) xs) = map f (filter P xs)"
  by (induction xs) simp_all

lemma charge_events_eq:
  "charge_events r b = map (opening_charge r b)
     (filter (\<lambda>c. 0 < fee_amount r c \<and> 0 < balance_amount b c + fee_amount r c) fee_fields)"
proof -
  have "charge_events r b = concat (map (\<lambda>c.
      if 0 < fee_amount r c \<and> 0 < balance_amount b c + fee_amount r c
      then [opening_charge r b c] else []) fee_fields)"
    by (simp add: charge_events_def opening_charge_def Let_def fee_fields_def)
  then show ?thesis by (simp only: concat_map_if)
qed

lemma payment_events_eq:
  "payment_events r b = map (payment_event r b) (filter (\<lambda>c. 0 < fee_amount r c) fee_fields)"
proof -
  have "payment_events r b = concat (map (\<lambda>c.
      if 0 < fee_amount r c then [payment_event r b c] else []) fee_fields)"
    by (simp add: payment_events_def payment_event_def Let_def fee_fields_def)
  then show ?thesis by (simp only: concat_map_if)
qed

lemma history_fold_find:
  "foldl (history_step bs) [] rs
     = (case find pays rs of None \<Rightarrow> []
        | Some r \<Rightarrow> charge_events r (find_balance_record bs (r_id r)))
       @ concat (map (\<lambda>r. payment_events r (find_balance_record bs (r_id r))) rs)"
proof -
  have "(case dropWhile (\<lambda>r. \<not> pays r) rs of
          [] \<Rightarrow> []
        | r # rest \<Rightarrow>
            charge_events r (find_balance_record bs (r_id r))
            @ concat (map (\<lambda>r. payment_events r (find_balance_record bs (r_id r))) (r # rest)))
      = (case find pays rs of None \<Rightarrow> []
        | Some r \<Rightarrow> charge_events r (find_balance_record bs (r_id r)))
       @ concat (map (\<lambda>r. payment_events r (find_balance_record bs (r_id r))) rs)"
  proof (induction rs)
    case Nil
    show ?case by simp
  next
    case (Cons r rs)
    then show ?case
      by (cases "pays r") (simp_all add: payment_events_empty [THEN iffD2])
  qed
  then show ?thesis by (simp only: history_fold_empty)
qed

text \<open>
  Claim C2, as the code has it. The history of an enrollment is the opening charges followed
  by the payment events of all its receipts in date order. Opening charges are created once,
  at the first receipt (in date order) on which some amount is strictly positive, for each
  component whose own amount on that receipt is strictly positive and whose balance before,
  the snapshot plus the payment, is strictly positive; the charge carries that balance as
  its amount and as its running balance. A component first paid on a later receipt has
  no opening charge.
\<close>

theorem opening_charges:
  "reconstruct_student_fee_history self student_id enrollment_id
     = (case find pays (student_receipts self student_id enrollment_id) of
          None \<Rightarrow> []
        | Some r \<Rightarrow>
            map (opening_charge r (find_balance_record (legacy_balance_records self) (r_id r)))
              (filter (\<lambda>c. 0 < fee_amount r c
                         \<and> 0 < balance_amount
                                 (find_balance_record (legacy_balance_records self) (r_id r)) c
                               + fee_amount r c) fee_fields))
       @ concat (map (\<lambda>r. map (payment_event r
                                 (find_balance_record (legacy_balance_records self) (r_id r)))
                            (filter (\<lambda>c. 0 < fee_amount r c) fee_fields))
           (student_receipts self student_id enrollment_id))"
  by (simp add: reconstruct_student_fee_history_def history_fold_find charge_events_eq
      payment_events_eq split: option.splits)

theorem opening_charges_witness:
  "map (\<lambda>ev. (fe_event_type ev, fe_component ev, fe_amount ev, fe_running_balance ev))
     (reconstruct_student_fee_history
        (loaded ex_lookup []
           [ex_receipt ''A'' ''10'' 1 None (Some 45000) False None,
            ex_receipt ''B'' ''10'' 2 None (Some 45000) False None]
           [ex_balance ''A'' 0 45000, ex_balance ''B'' 0 0])
        ''10'' ''EN1'')
   = [(CHARGE_CREATED, tut_fee, Finite 90000, Finite 90000),
      (PAYMENT_RECEIVED, tut_fee, Finite (- 45000), Finite 45000),
      (PAYMENT_RECEIVED, tut_fee, Finite (- 45000), Finite 0)]"
  by (subst opening_charges) code_simp

text \<open>
  Two receipts of one enrollment: the first pays 100 of registration while 500 of tuition are
  owed, the second pays 50 of tuition and leaves 450. Tuition has a positive balance before on
  both receipts, and no opening charge: its only events are the two payments.
\<close>

theorem opening_charge_counterexample:
  "balance_amount (Some (ex_balance ''A'' 0 500)) tut_fee
     + fee_amount (ex_receipt ''A'' ''10'' 1 (Some 100) None False None) tut_fee = Finite 500
   \<and> balance_amount (Some (ex_balance ''B'' 0 450)) tut_fee
     + fee_amount (ex_receipt ''B'' ''10'' 2 None (Some 50) False None) tut_fee = Finite 500
   \<and> map (\<lambda>ev. (fe_event_type ev, fe_component ev, fe_amount ev, fe_running_balance ev))
     (reconstruct_student_fee_history
        (loaded ex_lookup []
           [ex_receipt ''A'' ''10'' 1 (Some 100) None False None,
            ex_receipt ''B'' ''10'' 2 None (Some 50) False None]
           [ex_balance ''A'' 0 500, ex_balance ''B'' 0 450])
        ''10'' ''EN1'')
   = [(CHARGE_CREATED, reg_fee, Finite 100, Finite 100),
      (PAYMENT_RECEIVED, reg_fee, Finite (- 100), Finite 0),
      (PAYMENT_RECEIVED, tut_fee, Finite (- 50), Finite 450)]
   \<and> map (\<lambda>ev. (le_event_type ev, le_amount ev, le_running_balance ev))
       (filter (\<lambda>ev. le_fee_component_id ev = fee_component_id tut_fee)
         (transformed_events (emit_rows
           (loaded ex_lookup []
             [ex_receipt ''A'' ''10'' 1 (Some 100) None False None,
              ex_receipt ''B'' ''10'' 2 None (Some 50) False None]
             [ex_balance ''A'' 0 500, ex_balance ''B'' 0 450]))))
   = [(PAYMENT_RECEIVED, Finite (- 50), Finite 450),
      (PAYMENT_RECEIVED, Finite 50, Finite (- 50))]"
  by code_simp

subsection \<open>Missing input files\<close>

lemma load_mappings_missing_enrollments:
  "load_mappings (inp\<lparr>enrollment_file := None\<rparr>) self
     = load_mappings (inp\<lparr>enrollment_file := Some []\<rparr>) self"
  by (simp add: load_mappings_def Let_def)

lemma load_mappings_missing_students:
  "load_mappings (inp\<lparr>student_file := None\<rparr>) self
     = load_mappings (inp\<lparr>student_file := Some []\<rparr>) self"
  by (simp add: load_mappings_def Let_def split: option.splits)

text \<open>
  Claim C9, as the code has it. A missing legacy receipts file aborts the run with
  \<open>FileNotFoundError\<close> before any file is written. A missing enrollment table or student
  table does not abort the run: \<open>load_mappings\<close> skips it, and the run is the run on an
  empty table of that kind.
\<close>

theorem missing_receipts_file_aborts:
  "(legacy_receipts_file inp = None \<longrightarrow>
      run_complete_transformation can_write inp disk = (Some FileNotFoundError, disk))
   \<and> run_complete_transformation can_write (inp\<lparr>enrollment_file := None\<rparr>) disk
       = run_complete_transformation can_write (inp\<lparr>enrollment_file := Some []\<rparr>) disk
   \<and> run_complete_transformation can_write (inp\<lparr>student_file := None\<rparr>) disk
       = run_complete_transformation can_write (inp\<lparr>student_file := Some []\<rparr>) disk"
proof (intro conjI)
  show "legacy_receipts_file inp = None \<longrightarrow>
      run_complete_transformation can_write inp disk = (Some FileNotFoundError, disk)"
    by (simp add: run_complete_transformation_def load_legacy_data_def Let_def)
  show "run_complete_transformation can_write (inp\<lparr>enrollment_file := None\<rparr>) disk
       = run_complete_transformation can_write (inp\<lparr>enrollment_file := Some []\<rparr>) disk"
    by (simp add: run_complete_transformation_def load_mappings_missing_enrollments
        load_legacy_data_def split: option.splits)
  show "run_complete_transformation can_write (inp\<lparr>student_file := None\<rparr>) disk
       = run_complete_transformation can_write (inp\<lparr>student_file := Some []\<rparr>) disk"
    by (simp add: run_complete_transformation_def load_mappings_missing_students
        load_legacy_data_def split: option.splits)
qed

theorem missing_receipts_file_aborts_witness:
  "run_complete_transformation (\<lambda>file. True)
     \<lparr>enrollment_file = Some [(''E1'', ''EN1'', ''S1'')], student_file = Some [],
      legacy_receipts_file = None, legacy_balance_file = None\<rparr> []
   = (Some FileNotFoundError, [])"
  using missing_receipts_file_aborts [of
     "\<lparr>enrollment_file = Some [(''E1'', ''EN1'', ''S1'')], student_file = Some [],
      legacy_receipts_file = None, legacy_balance_file = None\<rparr>" "\<lambda>file. True" "[]"]
  by simp

text \<open>
  Without the student table the run completes and writes all five files; without the
  enrollment table nothing resolves, and the run completes and writes the import script.
\<close>

theorem missing_input_counterexample:
  "fst (run_complete_transformation (\<lambda>file. True)
     \<lparr>enrollment_file = Some [(''E1'', ''EN1'', ''S1'')], student_file = None,
      legacy_receipts_file = Some [ex_receipt ''A'' ''10'' 1 (Some 100) None False None],
      legacy_balance_file = None\<rparr> []) = None
   \<and> length (snd (run_complete_transformation (\<lambda>file. True)
     \<lparr>enrollment_file = Some [(''E1'', ''EN1'', ''S1'')], student_file = None,
      legacy_receipts_file = Some [ex_receipt ''A'' ''10'' 1 (Some 100) None False None],
      legacy_balance_file = None\<rparr> [])) = 5
   \<and> run_complete_transformation (\<lambda>file. True)
     \<lparr>enrollment_file = None, student_file = Some [(Some ''10'', ''S1'')],
      legacy_receipts_file = Some [ex_receipt ''A'' ''10'' 1 (Some 100) None False None],
      legacy_balance_file = None\<rparr> [] = (None, [ImportScript])"
  by code_simp

subsection \<open>Allocations\<close>

lemma fee_component_id_inj: "fee_component_id c = fee_component_id c' \<longleftrightarrow> c = c'"
  by (cases c; cases c') simp_all

lemma component_fold:
  "foldl (component_step r e rid) (u, rb, evs, als) cs
     = (u + 2 * length (filter (\<lambda>c. 0 < fee_amount r c) cs),
        component_balance r rb cs,
        evs @ component_events r e rid u rb cs,
        als @ component_allocations r e rid u cs)"
  by (induction cs arbitrary: u rb evs als)
    (simp_all add: component_step_def Let_def receipt_event_def receipt_allocation_def)

lemma component_allocations_receipt:
  "list_all (\<lambda>a. al_receipt_id a = rid) (component_allocations r e rid u cs)"
  by (induction cs arbitrary: u) (simp_all add: receipt_allocation_def)

lemma component_events_receipt:
  "list_all (\<lambda>ev. le_receipt_id ev = Some rid) (component_events r e rid u rb cs)"
  by (induction cs arbitrary: u rb) (simp_all add: receipt_event_def)

lemma component_allocations_notin:
  "c \<notin> set cs \<Longrightarrow>
     filter (\<lambda>a. al_fee_component_id a = fee_component_id c) (component_allocations r e rid u cs) = []"
  by (induction cs arbitrary: u) (auto simp: receipt_allocation_def fee_component_id_inj)

lemma component_allocations_filter:
  "distinct cs \<Longrightarrow>
     filter (\<lambda>a. al_fee_component_id a = fee_component_id c) (component_allocations r e rid u cs)
       = (if c \<in> set cs \<and> 0 < fee_amount r c
          then [receipt_allocation r e rid
                  (u + 2 * length (filter (\<lambda>c'. 0 < fee_amount r c') (takeWhile (\<lambda>c'. c' \<noteq> c) cs))) c]
          else [])"
proof (induction cs arbitrary: u)
  case Nil
  show ?case by simp
next
  case (Cons c' cs)
  show ?case
  proof (cases "c' = c")
    case True
    then have "c \<notin> set cs" using Cons.prems by simp
    then show ?thesis
      using True by (simp add: component_allocations_notin) (simp add: receipt_allocation_def)
  next
    case False
    then show ?thesis
      using Cons.prems Cons.IH by (simp add: receipt_allocation_def fee_component_id_inj)
  qed
qed

lemma component_events_ids:
  "list_all (\<lambda>ev. u \<le> le_id ev \<and> le_id ev < u + 2 * length (filter (\<lambda>c. 0 < fee_amount r c) cs))
     (component_events r e rid u rb cs)"
proof (induction cs arbitrary: u rb)
  case Nil
  show ?case by simp
next
  case (Cons c cs)
  show ?case
  proof (cases "0 < fee_amount r c")
    case True
    have "list_all (\<lambda>ev. u \<le> le_id ev \<and>
              le_id ev < u + 2 * length (filter (\<lambda>c. 0 < fee_amount r c) (c # cs)))
            (component_events r e rid (u + 2) (rb - fee_amount r c) cs)"
      using Cons.IH [of "u + 2" "rb - fee_amount r c"] True
      by (auto simp: list_all_iff)
    then show ?thesis using True by (simp add: receipt_event_def)
  next
    case False
    then show ?thesis using Cons.IH [of u rb] by simp
  qed
qed

lemma component_allocations_ids:
  "list_all (\<lambda>a. al_ledger_event_id a < u + 2 * length (filter (\<lambda>c. 0 < fee_amount r c) cs))
     (component_allocations r e rid u cs)"
proof (induction cs arbitrary: u)
  case Nil
  show ?case by simp
next
  case (Cons c cs)
  show ?case
  proof (cases "0 < fee_amount r c")
    case True
    have "list_all (\<lambda>a. al_ledger_event_id a
              < u + 2 * length (filter (\<lambda>c. 0 < fee_amount r c) (c # cs)))
            (component_allocations r e rid (u + 2) cs)"
      using Cons.IH [of "u + 2"] True by (auto simp: list_all_iff)
    then show ?thesis using True by (simp add: receipt_allocation_def)
  next
    case False
    then show ?thesis using Cons.IH [of u] by simp
  qed
qed

lemma component_events_filter:
  "distinct cs \<Longrightarrow> c \<in> set cs \<Longrightarrow> 0 < fee_amount r c \<Longrightarrow>
     \<exists>rb'. filter (\<lambda>ev. le_id ev
                 = u + 2 * length (filter (\<lambda>c'. 0 < fee_amount r c') (takeWhile (\<lambda>c'. c' \<noteq> c) cs)))
              (component_events r e rid u rb cs)
            = [receipt_event r e rid
                 (u + 2 * length (filter (\<lambda>c'. 0 < fee_amount r c') (takeWhile (\<lambda>c'. c' \<noteq> c) cs)))
                 rb' c]"
proof (induction cs arbitrary: u rb)
  case Nil
  then show ?case by simp
next
  case (Cons c' cs)
  show ?case
  proof (cases "c' = c")
    case True
    have "filter (\<lambda>ev. le_id ev = u) (component_events r e rid (u + 2) (rb - fee_amount r c) cs) = []"
      using component_events_ids [of "u + 2" r cs e rid "rb - fee_amount r c"]
      by (auto simp: filter_empty_conv list_all_iff)
    then show ?thesis using True Cons.prems by (intro exI [of _ rb]) (simp add: receipt_event_def)
  next
    case False
    then have c: "c \<in> set cs" and d: "distinct cs" using Cons.prems by simp_all
    show ?thesis
    proof (cases "0 < fee_amount r c'")
      case True
      from Cons.IH [OF d c Cons.prems(3), of "u + 2" "rb - fee_amount r c'"]
      show ?thesis using True False by (simp add: receipt_event_def)
    next
      case False2: False
      from Cons.IH [OF d c Cons.prems(3), of u rb]
      show ?thesis using False2 False by simp
    qed
  qed
qed

lemma balance_fold_uuid:
  "u \<le> fst (foldl (balance_step r b e rid) (u, rows) cs)"
proof (induction cs arbitrary: u rows)
  case Nil
  show ?case by simp
next
  case (Cons c cs)
  show ?case
    using Cons.IH [of "u + 1"] Cons.IH [of u]
    by (auto simp: balance_step_def Let_def intro: Suc_leD)
qed

lemma process_receipt_unresolved:
  "resolve self r = None \<Longrightarrow> process_receipt self r = self"
  by (simp add: process_receipt_def)

lemma process_receipt_resolved:
  assumes "resolve self r = Some e"
  shows "\<exists>row. transformed_receipts (process_receipt self r) = transformed_receipts self @ [row]
            \<and> rr_id row = uuid_counter self \<and> rr_legacy_receipt_id row = r_id r"
    and "transformed_events (process_receipt self r)
           = transformed_events self
             @ component_events r e (uuid_counter self) (uuid_counter self + 1) 0 fee_fields"
    and "transformed_allocations (process_receipt self r)
           = transformed_allocations self
             @ component_allocations r e (uuid_counter self) (uuid_counter self + 1) fee_fields"
    and "uuid_counter self + 1 + 2 * length (filter (\<lambda>c. 0 < fee_amount r c) fee_fields)
           \<le> uuid_counter (process_receipt self r)"
proof -
  show "\<exists>row. transformed_receipts (process_receipt self r) = transformed_receipts self @ [row]
            \<and> rr_id row = uuid_counter self \<and> rr_legacy_receipt_id row = r_id r"
    using assms by (simp add: process_receipt_def Let_def split: prod.splits)
  show "transformed_events (process_receipt self r)
           = transformed_events self
             @ component_events r e (uuid_counter self) (uuid_counter self + 1) 0 fee_fields"
    using assms by (simp add: process_receipt_def Let_def component_fold split: prod.splits)
  show "transformed_allocations (process_receipt self r)
           = transformed_allocations self
             @ component_allocations r e (uuid_counter self) (uuid_counter self + 1) fee_fields"
    using assms by (simp add: process_receipt_def Let_def component_fold split: prod.splits)
  show "uuid_counter self + 1 + 2 * length (filter (\<lambda>c. 0 < fee_amount r c) fee_fields)
           \<le> uuid_counter (process_receipt self r)"
  proof -
    have "uuid_counter (process_receipt self r)
            = fst (foldl (balance_step r (find_balance_record (legacy_balance_records self) (r_id r))
                     e (uuid_counter self))
                  (uuid_counter self + 1 + 2 * length (filter (\<lambda>c. 0 < fee_amount r c) fee_fields), [])
                  fee_fields)"
      using assms by (simp add: process_receipt_def Let_def component_fold split: prod.splits)
    then show ?thesis by (simp add: balance_fold_uuid)
  qed
qed


lemma distinct_fee_fields: "distinct fee_fields" "c \<in> set fee_fields"
  by (simp add: fee_fields_def, cases c) (simp_all add: fee_fields_def)

lemma process_receipt_ids_below:
  assumes "ids_below self"
  shows "ids_below (process_receipt self r)"
proof (cases "resolve self r")
  case None
  then show ?thesis using assms by (simp add: process_receipt_unresolved)
next
  case (Some e)
  let ?u = "uuid_counter self"
  let ?n = "?u + 1 + 2 * length (filter (\<lambda>c. 0 < fee_amount r c) fee_fields)"
  let ?u' = "uuid_counter (process_receipt self r)"
  note pr = process_receipt_resolved [OF Some]
  have le: "?n \<le> ?u'" by (rule pr(4))
  then have lt: "?u < ?u'" by simp
  obtain row where row: "transformed_receipts (process_receipt self r) = transformed_receipts self @ [row]"
      "rr_id row = ?u"
    using pr(1) by blast
  have rows: "list_all (\<lambda>row. rr_id row < ?u') (transformed_receipts (process_receipt self r))"
    using assms lt row by (auto simp: ids_below_def list_all_iff)
  have evs: "list_all (\<lambda>ev. le_id ev < ?u') (transformed_events (process_receipt self r))"
    using assms lt le component_events_ids [of "?u + 1" r fee_fields e ?u 0]
    by (auto simp: ids_below_def list_all_iff pr(2))
  have als: "list_all (\<lambda>a. al_receipt_id a < ?u' \<and> al_ledger_event_id a < ?u')
               (transformed_allocations (process_receipt self r))"
    using assms lt le component_allocations_ids [of "?u + 1" r fee_fields e ?u]
      component_allocations_receipt [of ?u r e "?u + 1" fee_fields]
    by (auto simp: ids_below_def list_all_iff pr(3))
  show ?thesis using rows evs als by (simp add: ids_below_def)
qed

lemma allocation_ok_old:
  assumes ids: "ids_below self" and row: "rr_id row < uuid_counter self"
  shows "allocation_ok (process_receipt self r) row r0 c = allocation_ok self row r0 c"
proof (cases "resolve self r")
  case None
  then show ?thesis by (simp add: process_receipt_unresolved)
next
  case (Some e)
  let ?u = "uuid_counter self"
  let ?P = "\<lambda>a. al_receipt_id a = rr_id row \<and> al_fee_component_id a = fee_component_id c"
  note pr = process_receipt_resolved [OF Some]
  have new: "filter ?P (component_allocations r e ?u (?u + 1) fee_fields) = []"
    using component_allocations_receipt [of ?u r e "?u + 1" fee_fields] row
    by (auto simp: filter_empty_conv list_all_iff)
  have als: "filter ?P (transformed_allocations (process_receipt self r))
               = filter ?P (transformed_allocations self)"
    using new by (simp add: pr(3))
  have evs: "filter (\<lambda>ev. le_id ev = al_ledger_event_id a) (transformed_events (process_receipt self r))
               = filter (\<lambda>ev. le_id ev = al_ledger_event_id a) (transformed_events self)"
    if "a \<in> set (transformed_allocations self)" for a
  proof -
    have "al_ledger_event_id a < ?u" using ids that by (auto simp: ids_below_def list_all_iff)
    then have "filter (\<lambda>ev. le_id ev = al_ledger_event_id a)
                 (component_events r e ?u (?u + 1) 0 fee_fields) = []"
      using component_events_ids [of "?u + 1" r fee_fields e ?u 0]
      by (auto simp: filter_empty_conv list_all_iff)
    then show ?thesis by (simp add: pr(2))
  qed
  show ?thesis
  proof (cases "filter ?P (transformed_allocations self)")
    case Nil
    then show ?thesis by (simp add: allocation_ok_def als)
  next
    case (Cons a as)
    then have "a \<in> set (filter ?P (transformed_allocations self))" by simp
    then have "a \<in> set (transformed_allocations self)" by simp
    from evs [OF this] show ?thesis using Cons by (simp add: allocation_ok_def als)
  qed
qed

lemma allocation_ok_new:
  assumes ids: "ids_below self" and res: "resolve self r = Some e"
    and row: "rr_id row = uuid_counter self"
  shows "allocation_ok (process_receipt self r) row r c"
proof -
  let ?u = "uuid_counter self"
  let ?P = "\<lambda>a. al_receipt_id a = rr_id row \<and> al_fee_component_id a = fee_component_id c"
  let ?k = "?u + 1 + 2 * length (filter (\<lambda>c'. 0 < fee_amount r c') (takeWhile (\<lambda>c'. c' \<noteq> c) fee_fields))"
  note pr = process_receipt_resolved [OF res]
  have old: "filter ?P (transformed_allocations self) = []"
    using ids row by (auto simp: ids_below_def filter_empty_conv list_all_iff)
  have "filter ?P (component_allocations r e ?u (?u + 1) fee_fields)
          = filter (\<lambda>a. al_fee_component_id a = fee_component_id c)
              (component_allocations r e ?u (?u + 1) fee_fields)"
    using component_allocations_receipt [of ?u r e "?u + 1" fee_fields] row
    by (intro filter_cong) (auto simp: list_all_iff)
  then have als: "filter ?P (transformed_allocations (process_receipt self r))
                    = (if 0 < fee_amount r c then [receipt_allocation r e ?u ?k c] else [])"
    by (simp add: pr(3) old component_allocations_filter [OF distinct_fee_fields(1)]
        distinct_fee_fields(2))
  show ?thesis
  proof (cases "0 < fee_amount r c")
    case False
    then show ?thesis by (simp add: allocation_ok_def als)
  next
    case True
    have oldev: "filter (\<lambda>ev. le_id ev = ?k) (transformed_events self) = []"
      using ids by (auto simp: ids_below_def filter_empty_conv list_all_iff)
    obtain rb' where "filter (\<lambda>ev. le_id ev = ?k) (component_events r e ?u (?u + 1) 0 fee_fields)
                        = [receipt_event r e ?u ?k rb' c]"
      using component_events_filter [OF distinct_fee_fields True, of "?u + 1" e ?u 0] by auto
    then have evs: "filter (\<lambda>ev. le_id ev = ?k) (transformed_events (process_receipt self r))
                      = [receipt_event r e ?u ?k rb' c]"
      using oldev by (simp add: pr(2))
    have k: "al_ledger_event_id (receipt_allocation r e ?u ?k c) = ?k"
      by (simp add: receipt_allocation_def)
    show ?thesis
      using True row als evs
      by (simp add: allocation_ok_def receipt_allocation_def receipt_event_def)
  qed
qed

lemma process_receipt_receipt_ok:
  assumes ids: "ids_below self"
    and ok: "list_all2 (receipt_ok self) (transformed_receipts self) rs0"
  shows "list_all2 (receipt_ok (process_receipt self r))
           (transformed_receipts (process_receipt self r))
           (rs0 @ (if resolve self r \<noteq> None then [r] else []))"
proof (cases "resolve self r")
  case None
  then show ?thesis using ok by (simp add: process_receipt_unresolved)
next
  case (Some e)
  obtain row where row: "transformed_receipts (process_receipt self r) = transformed_receipts self @ [row]"
      "rr_id row = uuid_counter self" "rr_legacy_receipt_id row = r_id r"
    using process_receipt_resolved(1) [OF Some] by blast
  have old: "receipt_ok (process_receipt self r) row0 r0 = receipt_ok self row0 r0"
    if "row0 \<in> set (transformed_receipts self)" for row0 r0
  proof -
    have "rr_id row0 < uuid_counter self" using ids that by (auto simp: ids_below_def list_all_iff)
    then show ?thesis by (simp add: receipt_ok_def list_all_iff allocation_ok_old [OF ids])
  qed
  have "list_all2 (receipt_ok (process_receipt self r)) (transformed_receipts self) rs0"
    using ok old by (auto simp: list_all2_conv_all_nth)
  moreover have "receipt_ok (process_receipt self r) row r"
    using allocation_ok_new [OF ids Some row(2)] row(3) by (simp add: receipt_ok_def list_all_iff)
  ultimately show ?thesis using Some row(1) by (simp add: list_all2_appendI)
qed

lemma process_receipts_receipt_ok:
  assumes "ids_below self"
    and "list_all2 (receipt_ok self) (transformed_receipts self) rs0"
  shows "list_all2 (receipt_ok (foldl process_receipt self rs))
           (transformed_receipts (foldl process_receipt self rs))
           (rs0 @ filter (\<lambda>r. resolve self r \<noteq> None) rs)"
  using assms
proof (induction rs arbitrary: self rs0)
  case Nil
  then show ?case by simp
next
  case (Cons r rs)
  from Cons.IH [OF process_receipt_ids_below [OF Cons.prems(1), of r]
      process_receipt_receipt_ok [OF Cons.prems, of r]]
  show ?case by (cases "resolve self r") (simp_all add: resolve_process_receipt)
qed


lemma emit_history_event_below:
  "list_all (\<lambda>ev. le_id ev < uuid_counter self) (transformed_events self) \<Longrightarrow>
   list_all (\<lambda>ev. le_id ev < uuid_counter (emit_history_event e self event))
     (transformed_events (emit_history_event e self event))"
  by (auto simp: emit_history_event_def history_event_record_def list_all_iff)

lemma emit_history_events_below:
  "list_all (\<lambda>ev. le_id ev < uuid_counter self) (transformed_events self) \<Longrightarrow>
   list_all (\<lambda>ev. le_id ev < uuid_counter (foldl (emit_history_event e) self events))
     (transformed_events (foldl (emit_history_event e) self events))"
proof (induction events arbitrary: self)
  case Nil
  then show ?case by simp
next
  case (Cons event events)
  from Cons.IH [OF emit_history_event_below [OF Cons.prems]] show ?case by simp
qed

lemma process_enrollment_below:
  "list_all (\<lambda>ev. le_id ev < uuid_counter self) (transformed_events self) \<Longrightarrow>
   list_all (\<lambda>ev. le_id ev < uuid_counter (process_enrollment self entry))
     (transformed_events (process_enrollment self entry))"
  by (simp add: process_enrollment_def Let_def emit_history_events_below
      split: prod.splits list.splits)

lemma process_enrollments_below:
  "list_all (\<lambda>ev. le_id ev < uuid_counter self) (transformed_events self) \<Longrightarrow>
   list_all (\<lambda>ev. le_id ev < uuid_counter (foldl process_enrollment self entries))
     (transformed_events (foldl process_enrollment self entries))"
proof (induction entries arbitrary: self)
  case Nil
  then show ?case by simp
next
  case (Cons entry entries)
  from Cons.IH [OF process_enrollment_below [OF Cons.prems]] show ?case by simp
qed

lemma emit_history_ids_below: "ids_below (emit_history (loaded el sl receipts balances))"
proof -
  let ?self = "loaded el sl receipts balances"
  have "list_all (\<lambda>ev. le_id ev < uuid_counter ?self) (transformed_events ?self)"
    by (simp add: loaded_def new_transformer_def)
  then have "list_all (\<lambda>ev. le_id ev < uuid_counter (emit_history ?self))
               (transformed_events (emit_history ?self))"
    unfolding emit_history_def by (rule process_enrollments_below)
  moreover have "transformed_receipts (emit_history ?self) = []"
    "transformed_allocations (emit_history ?self) = []"
    by (simp_all add: emit_history_frame loaded_def new_transformer_def)
  ultimately show ?thesis by (simp add: ids_below_def)
qed

lemma process_receipt_allocations_owned:
  assumes "list_all (\<lambda>a. list_ex (\<lambda>row. rr_id row = al_receipt_id a) (transformed_receipts self))
             (transformed_allocations self)"
  shows "list_all (\<lambda>a. list_ex (\<lambda>row. rr_id row = al_receipt_id a)
                     (transformed_receipts (process_receipt self r)))
           (transformed_allocations (process_receipt self r))"
proof (cases "resolve self r")
  case None
  then show ?thesis using assms by (simp add: process_receipt_unresolved)
next
  case (Some e)
  note pr = process_receipt_resolved [OF Some]
  obtain row where row: "transformed_receipts (process_receipt self r) = transformed_receipts self @ [row]"
      "rr_id row = uuid_counter self"
    using pr(1) by blast
  show ?thesis
    using assms component_allocations_receipt [of "uuid_counter self" r e "uuid_counter self + 1" fee_fields]
    by (auto simp: pr(3) row list_all_iff list_ex_iff)
qed

lemma process_receipts_allocations_owned:
  assumes "list_all (\<lambda>a. list_ex (\<lambda>row. rr_id row = al_receipt_id a) (transformed_receipts self))
             (transformed_allocations self)"
  shows "list_all (\<lambda>a. list_ex (\<lambda>row. rr_id row = al_receipt_id a)
                     (transformed_receipts (foldl process_receipt self rs)))
           (transformed_allocations (foldl process_receipt self rs))"
  using assms
proof (induction rs arbitrary: self)
  case Nil
  then show ?case by simp
next
  case (Cons r rs)
  from Cons.IH [OF process_receipt_allocations_owned [OF Cons.prems, of r]] show ?case by simp
qed

text \<open>
  Claim C7. The receipt rows of a run pair off, in order, with the legacy receipts whose
  enrollment resolves, and for every such receipt and every component: if the legacy amount is
  strictly positive, exactly one allocation references the receipt row and the component; its
  allocated amount is the legacy amount and its ledger event identifier names exactly one
  ledger event, which is linked to the same receipt row and component and carries the same
  amount; if the legacy amount is not strictly positive, no allocation references the row and
  the component. Every allocation of the run references a receipt row of the run.
\<close>

theorem allocations_complete:
  "list_all2 (receipt_ok (emit_rows (loaded el sl receipts balances)))
     (transformed_receipts (emit_rows (loaded el sl receipts balances)))
     (filter (\<lambda>r. resolve (loaded el sl receipts balances) r \<noteq> None) receipts)
   \<and> list_all (\<lambda>a. list_ex (\<lambda>row. rr_id row = al_receipt_id a)
                  (transformed_receipts (emit_rows (loaded el sl receipts balances))))
       (transformed_allocations (emit_rows (loaded el sl receipts balances)))"
proof
  let ?self = "loaded el sl receipts balances"
  have rs: "legacy_receipts ?self = receipts" by (simp add: loaded_def new_transformer_def)
  have empty: "transformed_receipts (emit_history ?self) = []"
    "transformed_allocations (emit_history ?self) = []"
    by (simp_all add: emit_history_frame loaded_def new_transformer_def)
  have "list_all2 (receipt_ok (emit_history ?self)) (transformed_receipts (emit_history ?self)) []"
    by (simp add: empty)
  from process_receipts_receipt_ok [OF emit_history_ids_below this, of receipts]
  show "list_all2 (receipt_ok (emit_rows ?self)) (transformed_receipts (emit_rows ?self))
          (filter (\<lambda>r. resolve ?self r \<noteq> None) receipts)"
    by (simp add: emit_rows_def emit_history_frame rs resolve_emit_history)
  have "list_all (\<lambda>a. list_ex (\<lambda>row. rr_id row = al_receipt_id a)
                    (transformed_receipts (emit_history ?self)))
          (transformed_allocations (emit_history ?self))"
    by (simp add: empty)
  from process_receipts_allocations_owned [OF this, of receipts]
  show "list_all (\<lambda>a. list_ex (\<lambda>row. rr_id row = al_receipt_id a)
                    (transformed_receipts (emit_rows ?self)))
          (transformed_allocations (emit_rows ?self))"
    by (simp add: emit_rows_def emit_history_frame rs)
qed

subsection \<open>Negative amounts\<close>















subsection \<open>Events of the per-receipt pass\<close>

lemma receipt_event_sel [simp]:
  "le_fee_component_id (receipt_event r e rid u rb c) = fee_component_id c"
  "le_receipt_id (receipt_event r e rid u rb c) = Some rid"
  "le_id (receipt_event r e rid u rb c) = u"
  by (simp_all add: receipt_event_def)

lemma component_events_notin:
  "c \<notin> set cs \<Longrightarrow>
     filter (\<lambda>ev. le_fee_component_id ev = fee_component_id c) (component_events r e rid u rb cs) = []"
  by (induction cs arbitrary: u rb) (auto simp: fee_component_id_inj)

lemma component_events_component:
  "distinct cs \<Longrightarrow>
     \<exists>k. filter (\<lambda>ev. le_fee_component_id ev = fee_component_id c) (component_events r e rid u rb cs)
       = (if c \<in> set cs \<and> 0 < fee_amount r c
          then [receipt_event r e rid k (component_balance r rb (takeWhile (\<lambda>c'. c' \<noteq> c) cs)) c]
          else [])"
proof (induction cs arbitrary: u rb)
  case Nil
  show ?case by simp
next
  case (Cons c' cs)
  show ?case
  proof (cases "c' = c")
    case True
    then have "c \<notin> set cs" using Cons.prems by simp
    then show ?thesis
      using True by (auto simp: component_events_notin)
  next
    case False
    have d: "distinct cs" using Cons.prems by simp
    show ?thesis
    proof (cases "0 < fee_amount r c'")
      case True
      from Cons.IH [OF d, of "u + 2" "rb - fee_amount r c'"]
      show ?thesis using True False by (auto simp: fee_component_id_inj split: if_splits)
    next
      case False2: False
      from Cons.IH [OF d, of u rb]
      show ?thesis using False2 False by (auto split: if_splits)
    qed
  qed
qed

lemma emit_history_event_links:
  "links_below self \<Longrightarrow> links_below (emit_history_event e self event)"
  by (auto simp: links_below_def emit_history_event_def history_event_record_def list_all_iff
      split: option.splits)

lemma emit_history_events_links:
  "links_below self \<Longrightarrow> links_below (foldl (emit_history_event e) self events)"
  by (induction events arbitrary: self) (simp_all add: emit_history_event_links)

lemma process_enrollment_links:
  "links_below self \<Longrightarrow> links_below (process_enrollment self entry)"
  by (simp add: process_enrollment_def Let_def emit_history_events_links
      split: prod.splits list.splits)

lemma process_enrollments_links:
  "links_below self \<Longrightarrow> links_below (foldl process_enrollment self entries)"
  by (induction entries arbitrary: self) (simp_all add: process_enrollment_links)

lemma emit_history_links: "links_below (emit_history (loaded el sl receipts balances))"
  unfolding emit_history_def
  by (rule process_enrollments_links) (simp add: links_below_def loaded_def new_transformer_def)

lemma process_receipt_links:
  assumes "links_below self"
  shows "links_below (process_receipt self r)"
proof (cases "resolve self r")
  case None
  then show ?thesis using assms by (simp add: process_receipt_unresolved)
next
  case (Some e)
  note pr = process_receipt_resolved [OF Some]
  have lt: "uuid_counter self < uuid_counter (process_receipt self r)" using pr(4) by simp
  show ?thesis
    using assms lt
      component_events_receipt [of "uuid_counter self" r e "uuid_counter self + 1" 0 fee_fields]
    by (auto simp: links_below_def pr(2) list_all_iff split: option.splits)
qed

lemma linked_event_old:
  assumes row: "rr_id row < uuid_counter self"
  shows "linked_events (process_receipt self r) row c = linked_events self row c"
proof (cases "resolve self r")
  case None
  then show ?thesis by (simp add: process_receipt_unresolved)
next
  case (Some e)
  let ?u = "uuid_counter self"
  have "filter (\<lambda>ev. le_receipt_id ev = Some (rr_id row) \<and> le_fee_component_id ev = fee_component_id c)
          (component_events r e ?u (?u + 1) 0 fee_fields) = []"
    using component_events_receipt [of ?u r e "?u + 1" 0 fee_fields] row
    by (auto simp: filter_empty_conv list_all_iff)
  then show ?thesis
    by (simp add: linked_events_def process_receipt_resolved(2) [OF Some])
qed

lemma linked_event_new:
  assumes links: "links_below self" and res: "resolve self r = Some e"
    and row: "rr_id row = uuid_counter self" "rr_enrollment_id row = e"
  shows "linked_event_is (process_receipt self r) row r c"
proof -
  let ?u = "uuid_counter self"
  let ?P = "\<lambda>ev. le_receipt_id ev = Some (rr_id row) \<and> le_fee_component_id ev = fee_component_id c"
  have old: "filter ?P (transformed_events self) = []"
    using links row(1) by (auto simp: links_below_def filter_empty_conv list_all_iff)
  have "filter ?P (component_events r e ?u (?u + 1) 0 fee_fields)
          = filter (\<lambda>ev. le_fee_component_id ev = fee_component_id c)
              (component_events r e ?u (?u + 1) 0 fee_fields)"
    using component_events_receipt [of ?u r e "?u + 1" 0 fee_fields] row(1)
    by (intro filter_cong) (auto simp: list_all_iff)
  moreover obtain k where "filter (\<lambda>ev. le_fee_component_id ev = fee_component_id c)
              (component_events r e ?u (?u + 1) 0 fee_fields)
       = (if c \<in> set fee_fields \<and> 0 < fee_amount r c
          then [receipt_event r e ?u k (component_balance r 0 (takeWhile (\<lambda>c'. c' \<noteq> c) fee_fields)) c]
          else [])"
    using component_events_component [OF distinct_fee_fields(1), of c r e ?u "?u + 1" 0] by blast
  ultimately have "linked_events (process_receipt self r) row c
      = (if 0 < fee_amount r c
         then [receipt_event r e ?u k (component_balance r 0 (takeWhile (\<lambda>c'. c' \<noteq> c) fee_fields)) c]
         else [])"
    using old by (simp add: linked_events_def process_receipt_resolved(2) [OF res]
        distinct_fee_fields(2))
  then show ?thesis unfolding linked_event_is_def row by blast
qed

lemma process_receipt_row:
  assumes "resolve self r = Some e"
  shows "\<exists>row. transformed_receipts (process_receipt self r) = transformed_receipts self @ [row]
            \<and> rr_id row = uuid_counter self \<and> rr_enrollment_id row = e"
  using assms by (simp add: process_receipt_def Let_def split: prod.splits)

lemma process_receipt_linked:
  assumes ids: "ids_below self" and links: "links_below self"
    and ok: "list_all2 (\<lambda>row r. list_all (linked_event_is self row r) fee_fields)
               (transformed_receipts self) rs0"
  shows "list_all2 (\<lambda>row r'. list_all (linked_event_is (process_receipt self r) row r') fee_fields)
           (transformed_receipts (process_receipt self r))
           (rs0 @ (if resolve self r \<noteq> None then [r] else []))"
proof (cases "resolve self r")
  case None
  then show ?thesis using ok by (simp add: process_receipt_unresolved)
next
  case (Some e)
  obtain row where row: "transformed_receipts (process_receipt self r) = transformed_receipts self @ [row]"
      "rr_id row = uuid_counter self" "rr_enrollment_id row = e"
    using process_receipt_row [OF Some] by blast
  have old: "linked_event_is (process_receipt self r) row0 r0 c = linked_event_is self row0 r0 c"
    if "row0 \<in> set (transformed_receipts self)" for row0 r0 c
  proof -
    have "rr_id row0 < uuid_counter self" using ids that by (auto simp: ids_below_def list_all_iff)
    then show ?thesis by (simp add: linked_event_is_def linked_event_old)
  qed
  have "list_all2 (\<lambda>row r'. list_all (linked_event_is (process_receipt self r) row r') fee_fields)
          (transformed_receipts self) rs0"
    using ok old by (auto simp: list_all2_conv_all_nth list_all_iff)
  moreover have "list_all (linked_event_is (process_receipt self r) row r) fee_fields"
    using linked_event_new [OF links Some row(2,3)] by (simp add: list_all_iff)
  ultimately show ?thesis using Some row(1) by (simp add: list_all2_appendI)
qed

lemma process_receipts_linked:
  assumes "ids_below self" and "links_below self"
    and "list_all2 (\<lambda>row r. list_all (linked_event_is self row r) fee_fields)
               (transformed_receipts self) rs0"
  shows "list_all2 (\<lambda>row r. list_all (linked_event_is (foldl process_receipt self rs) row r) fee_fields)
           (transformed_receipts (foldl process_receipt self rs))
           (rs0 @ filter (\<lambda>r. resolve self r \<noteq> None) rs)"
  using assms
proof (induction rs arbitrary: self rs0)
  case Nil
  then show ?case by simp
next
  case (Cons r rs)
  from Cons.IH [OF process_receipt_ids_below [OF Cons.prems(1), of r]
      process_receipt_links [OF Cons.prems(2), of r]
      process_receipt_linked [OF Cons.prems, of r]]
  show ?case by (cases "resolve self r") (simp_all add: resolve_process_receipt)
qed

lemma emit_rows_linked:
  "list_all2 (\<lambda>row r. list_all (linked_event_is (emit_rows (loaded el sl receipts balances)) row r)
                 fee_fields)
     (transformed_receipts (emit_rows (loaded el sl receipts balances)))
     (filter (\<lambda>r. resolve (loaded el sl receipts balances) r \<noteq> None) receipts)"
proof -
  let ?self = "loaded el sl receipts balances"
  have rs: "legacy_receipts ?self = receipts" by (simp add: loaded_def new_transformer_def)
  have empty: "transformed_receipts (emit_history ?self) = []"
    by (simp add: emit_history_frame loaded_def new_transformer_def)
  have "list_all2 (\<lambda>row r. list_all (linked_event_is (emit_history ?self) row r) fee_fields)
          (transformed_receipts (emit_history ?self)) []"
    by (simp add: empty)
  from process_receipts_linked [OF emit_history_ids_below emit_history_links this, of receipts]
  show ?thesis
    by (simp add: emit_rows_def emit_history_frame rs resolve_emit_history)
qed

lemma linked_event_is_payment:
  "linked_event_is out row r c \<Longrightarrow> receipt_payment_event out row r c"
  by (auto simp: linked_event_is_def receipt_payment_event_def receipt_event_def)

lemma linked_event_is_type:
  "linked_event_is out row r c \<Longrightarrow> receipt_event_type out row r c"
  by (auto simp: linked_event_is_def receipt_event_type_def receipt_event_def)

text \<open>
  Claim C3, what the code does. The history pass creates for a receipt and each component
  with a strictly positive amount a payment event with minus that amount and the snapshot
  balance, as the claim says. The per-receipt pass creates a second event for the same
  payment, the one linked to the receipt row: its amount is the payment amount itself,
  positive, and its running balance is not the snapshot but zero minus the positive amounts
  of the receipt up to this component.
\<close>

theorem receipt_payment_events:
  "payment_events r b = map (payment_event r b) (filter (\<lambda>c. 0 < fee_amount r c) fee_fields)
   \<and> list_all2 (\<lambda>row r. list_all (receipt_payment_event
                                     (emit_rows (loaded el sl receipts balances)) row r) fee_fields)
       (transformed_receipts (emit_rows (loaded el sl receipts balances)))
       (filter (\<lambda>r. resolve (loaded el sl receipts balances) r \<noteq> None) receipts)"
proof
  show "payment_events r b = map (payment_event r b) (filter (\<lambda>c. 0 < fee_amount r c) fee_fields)"
    by (rule payment_events_eq)
  show "list_all2 (\<lambda>row r. list_all (receipt_payment_event
                                     (emit_rows (loaded el sl receipts balances)) row r) fee_fields)
       (transformed_receipts (emit_rows (loaded el sl receipts balances)))
       (filter (\<lambda>r. resolve (loaded el sl receipts balances) r \<noteq> None) receipts)"
    by (rule list_all2_mono [OF emit_rows_linked])
      (auto simp: list_all_iff intro: linked_event_is_payment)
qed

text \<open>
  One receipt that pays 100 of registration and leaves a balance of 400: the events are the
  opening charge, the payment of the history pass (-100, balance 400) and the payment of the
  per-receipt pass (100, balance -100), linked to the receipt row 3.
\<close>

theorem receipt_payment_counterexample:
  "map event_summary (transformed_events (emit_rows (loaded ex_lookup []
       [ex_receipt ''1'' ''10'' 1 (Some 100) None False None] [ex_balance ''1'' 400 0])))
     = [(CHARGE_CREATED, ''1'', Finite 500, Finite 500, None),
        (PAYMENT_RECEIVED, ''1'', Finite (- 100), Finite 400, Some 2),
        (PAYMENT_RECEIVED, ''1'', Finite 100, Finite (- 100), Some 3)]
   \<and> map rr_id (transformed_receipts (emit_rows (loaded ex_lookup []
       [ex_receipt ''1'' ''10'' 1 (Some 100) None False None] [ex_balance ''1'' 400 0]))) = [3]"
  by code_simp

lemma history_never_cancelled:
  "list_all (\<lambda>ev. fe_event_type ev \<noteq> PAYMENT_CANCELLED) (foldl (history_step bs) [] rs)"
  by (auto simp: history_fold_find charge_events_eq payment_events_eq list_all_iff
      opening_charge_def payment_event_def split: option.splits)

text \<open>
  Claim C4, what the code does. The history pass never creates a PAYMENT_CANCELLED event,
  whatever the cancellation flags: the payment events of a cancelled receipt are
  PAYMENT_RECEIVED there, with the snapshot balance. The per-receipt pass creates the event
  linked to the receipt row with type PAYMENT_CANCELLED iff the flag is set, and with a
  running balance counted down from zero, not the snapshot.
\<close>

theorem cancelled_receipt_events:
  "list_all (\<lambda>ev. fe_event_type ev \<noteq> PAYMENT_CANCELLED)
     (reconstruct_student_fee_history self student_id enrollment_id)
   \<and> list_all2 (\<lambda>row r. list_all (receipt_event_type
                                     (emit_rows (loaded el sl receipts balances)) row r) fee_fields)
       (transformed_receipts (emit_rows (loaded el sl receipts balances)))
       (filter (\<lambda>r. resolve (loaded el sl receipts balances) r \<noteq> None) receipts)"
proof
  show "list_all (\<lambda>ev. fe_event_type ev \<noteq> PAYMENT_CANCELLED)
     (reconstruct_student_fee_history self student_id enrollment_id)"
    by (simp add: reconstruct_student_fee_history_def history_never_cancelled)
  show "list_all2 (\<lambda>row r. list_all (receipt_event_type
                                     (emit_rows (loaded el sl receipts balances)) row r) fee_fields)
       (transformed_receipts (emit_rows (loaded el sl receipts balances)))
       (filter (\<lambda>r. resolve (loaded el sl receipts balances) r \<noteq> None) receipts)"
    by (rule list_all2_mono [OF emit_rows_linked])
      (auto simp: list_all_iff intro: linked_event_is_type)
qed

text \<open>
  The same receipt, cancelled: the history pass records PAYMENT_RECEIVED with the snapshot
  balance 400, the per-receipt pass PAYMENT_CANCELLED with the balance -100.
\<close>

theorem cancelled_receipt_counterexample:
  "map event_summary (transformed_events (emit_rows (loaded ex_lookup []
       [ex_receipt ''1'' ''10'' 1 (Some 100) None True None] [ex_balance ''1'' 400 0])))
     = [(CHARGE_CREATED, ''1'', Finite 500, Finite 500, None),
        (PAYMENT_RECEIVED, ''1'', Finite (- 100), Finite 400, Some 2),
        (PAYMENT_CANCELLED, ''1'', Finite 100, Finite (- 100), Some 3)]
   \<and> map rr_id (transformed_receipts (emit_rows (loaded ex_lookup []
       [ex_receipt ''1'' ''10'' 1 (Some 100) None True None] [ex_balance ''1'' 400 0]))) = [3]"
  by code_simp

end
